theory Spec2Isabelle
  imports Complex_Main "HOL-Library.Sublist"
begin

section \<open>Python values\<close>

text \<open>
  A Python \<open>str\<close> is a sequence of Unicode code points, and the regular expressions of
  \<open>main.py\<close> work on code points; a string is therefore a list of code points.
  \<open>cps\<close> turns an ASCII literal into such a list; the accented letters of the source
  are written by their code point (\<open>225\<close> is a-acute, \<open>243\<close> is o-acute).
\<close>

type_synonym pystr = "nat list"

definition cps :: "string \<Rightarrow> pystr" where
  "cps s = map of_char s"

text \<open>
  What a caller can hand to \<open>parse_gemini_response\<close>: the annotation \<open>text: str\<close> is not
  enforced by Python, so other objects are inputs too.
\<close>

datatype pyval = PyStr pystr | PyBytes "nat list" | PyInt int | PyNone

text \<open>An instance of \<open>Exception\<close>, with the text that \<open>str(e)\<close> gives.\<close>

datatype pyexn = PyException pystr

section \<open>The pieces of \<open>str\<close> and \<open>re\<close> that the parser uses\<close>

text \<open>
  \<open>str.strip()\<close> removes the characters for which \<open>str.isspace\<close> holds from both ends;
  \<open>str.strip(chars)\<close> removes the characters of \<open>chars\<close>.
\<close>

definition py_isspace :: "nat \<Rightarrow> bool" where
  "py_isspace c \<longleftrightarrow>
     (9 \<le> c \<and> c \<le> 13) \<or> (28 \<le> c \<and> c \<le> 32) \<or> c = 133 \<or> c = 160 \<or> c = 5760 \<or>
     (8192 \<le> c \<and> c \<le> 8202) \<or> c = 8232 \<or> c = 8233 \<or> c = 8239 \<or> c = 8287 \<or> c = 12288"

definition strip_by :: "(nat \<Rightarrow> bool) \<Rightarrow> pystr \<Rightarrow> pystr" where
  "strip_by P s = rev (dropWhile P (rev (dropWhile P s)))"

definition strip :: "pystr \<Rightarrow> pystr" where
  "strip s = strip_by py_isspace s"

definition strip_chars :: "pystr \<Rightarrow> pystr \<Rightarrow> pystr" where
  "strip_chars chars s = strip_by (\<lambda>c. c \<in> set chars) s"

text \<open>
  Matching under \<open>re.IGNORECASE\<close> on a \<open>str\<close> pattern: a literal of the pattern matches a
  character of the text when both have the same case-folded form. \<open>sre_fold\<close> gives that
  form for the characters that can match a literal of this program's patterns (ASCII and
  Latin-1 letters): the lower-case letter, to which the engine also sends dotted and
  dotless i (304, 305), long s (383), the Kelvin sign (8490) and the Angstrom sign (8491).
  Every other code point is its own form.
\<close>

definition sre_fold :: "nat \<Rightarrow> nat" where
  "sre_fold c =
     (if 65 \<le> c \<and> c \<le> 90 then c + 32
      else if c = 304 \<or> c = 305 then 105
      else if c = 383 then 115
      else if c = 8490 then 107
      else if 192 \<le> c \<and> c \<le> 222 \<and> c \<noteq> 215 then c + 32
      else if c = 8491 then 229
      else c)"

text \<open>
  \<open>lit_match p t\<close>: the literal \<open>p\<close> is matched at the start of \<open>t\<close>; the result is the
  text after the match.
\<close>

fun lit_match :: "pystr \<Rightarrow> pystr \<Rightarrow> pystr option" where
  "lit_match [] t = Some t"
| "lit_match (p # ps) [] = None"
| "lit_match (p # ps) (c # cs) =
     (if sre_fold p = sre_fold c then lit_match ps cs else None)"

text \<open>
  The lazy group \<open>(.*?)\<close> followed by the lookahead \<open>(?=nxt|\Z)\<close>, with \<open>re.DOTALL\<close>:
  the shortest stretch of text after which \<open>nxt\<close> matches or the text ends.
\<close>

fun lazy_until :: "pystr \<Rightarrow> pystr \<Rightarrow> pystr" where
  "lazy_until nxt [] = []"
| "lazy_until nxt (c # cs) =
     (if lit_match nxt (c # cs) \<noteq> None then [] else c # lazy_until nxt cs)"

text \<open>
  \<open>re.search\<close> for a pattern made of a literal header and one group: the start positions
  are tried from the left, and at the first one where the header matches, \<open>grp\<close> gives
  \<open>group(1)\<close> from the text after the header. (The groups of the three patterns always
  match, so the leftmost header decides.) \<open>None\<close> is Python's \<open>None\<close>: no match.
\<close>

fun scan :: "pystr \<Rightarrow> (pystr \<Rightarrow> pystr) \<Rightarrow> pystr \<Rightarrow> pystr option" where
  "scan hdr grp [] = map_option grp (lit_match hdr [])"
| "scan hdr grp (c # cs) =
     (case lit_match hdr (c # cs) of
        Some rest \<Rightarrow> Some (grp rest)
      | None \<Rightarrow> scan hdr grp cs)"

text \<open>\<open>re.search\<close> raises \<open>TypeError\<close> when its second argument is not a \<open>str\<close>.\<close>

definition re_search :: "pystr \<Rightarrow> (pystr \<Rightarrow> pystr) \<Rightarrow> pyval \<Rightarrow> pyexn + pystr option" where
  "re_search hdr grp v =
     (case v of
        PyStr t \<Rightarrow> Inr (scan hdr grp t)
      | PyBytes b \<Rightarrow> Inl (PyException (cps ''cannot use a string pattern on a bytes-like object''))
      | _ \<Rightarrow> Inl (PyException (cps ''expected string or bytes-like object'')))"

section \<open>The response parser\<close>

definition header_analisis :: pystr where
  "header_analisis = cps ''**1. An'' @ [225] @ cps ''lisis Breve:**''"

definition header_justificacion :: pystr where
  "header_justificacion = cps ''**2. Justificaci'' @ [243] @ cps ''n:**''"

definition header_acciones :: pystr where
  "header_acciones = cps ''**3. Acciones Sugeridas:**''"

definition placeholder_analisis :: pystr where
  "placeholder_analisis = cps ''No se pudo parsear el an'' @ [225] @ cps ''lisis.''"

definition placeholder_justificacion :: pystr where
  "placeholder_justificacion = cps ''No se pudo parsear la justificaci'' @ [243] @ cps ''n.''"

definition placeholder_acciones :: pystr where
  "placeholder_acciones = cps ''No se pudieron parsear las acciones.''"

record parsed =
  analisis_breve :: pyval
  justificacion :: pyval
  acciones_sugeridas :: pyval

text \<open>\<open>group(1).strip().strip("()").strip()\<close>, or the placeholder when there is no match.\<close>

definition clean :: "pystr \<Rightarrow> pystr" where
  "clean g = strip (strip_chars (cps ''()'') (strip g))"

definition clean_or :: "pystr \<Rightarrow> pystr option \<Rightarrow> pyval" where
  "clean_or placeholder m = (case m of Some g \<Rightarrow> PyStr (clean g) | None \<Rightarrow> PyStr placeholder)"

text \<open>The body of the \<open>try\<close> block: the first \<open>re.search\<close> that raises ends it.\<close>

definition try_parse :: "pyval \<Rightarrow> pyexn + parsed" where
  "try_parse text =
     (case re_search header_analisis (lazy_until header_justificacion) text of
        Inl e \<Rightarrow> Inl e
      | Inr analisis \<Rightarrow>
     (case re_search header_justificacion (lazy_until header_acciones) text of
        Inl e \<Rightarrow> Inl e
      | Inr justif \<Rightarrow>
     (case re_search header_acciones (\<lambda>rest. rest) text of
        Inl e \<Rightarrow> Inl e
      | Inr acciones \<Rightarrow>
          Inr \<lparr>analisis_breve = clean_or placeholder_analisis analisis,
               justificacion = clean_or placeholder_justificacion justif,
               acciones_sugeridas = clean_or placeholder_acciones acciones\<rparr>)))"

text \<open>
  The function with its \<open>except Exception\<close> handler, which returns the raw text in the
  first field. The result is a sum, as for any Python function: \<open>Inl\<close> would be an
  exception reaching the caller. (The handler's \<open>print\<close> is not modelled.)
\<close>

definition parse_gemini_response :: "pyval \<Rightarrow> pyexn + parsed" where
  "parse_gemini_response text =
     (case try_parse text of
        Inr d \<Rightarrow> Inr d
      | Inl e \<Rightarrow>
          Inr \<lparr>analisis_breve = text,
               justificacion = PyStr (cps ''Error de parseo.''),
               acciones_sugeridas = PyStr (cps ''Error de parseo.'')\<rparr>)"

text \<open>
  Where a header first occurs in a text, under the parser's comparison of characters;
  \<open>None\<close> when it occurs nowhere.
\<close>

fun find_hdr :: "pystr \<Rightarrow> pystr \<Rightarrow> nat option" where
  "find_hdr hdr [] = (if lit_match hdr [] = None then None else Some 0)"
| "find_hdr hdr (c # cs) =
     (if lit_match hdr (c # cs) \<noteq> None then Some 0 else map_option Suc (find_hdr hdr cs))"

text \<open>
  The text after the first occurrence of a header, and a text up to the first occurrence
  of a header in it (the whole text when the header does not occur in it).
\<close>

definition after_header :: "pystr \<Rightarrow> pystr \<Rightarrow> pystr" where
  "after_header hdr t =
     (case find_hdr hdr t of None \<Rightarrow> [] | Some i \<Rightarrow> drop (i + length hdr) t)"

definition up_to_header :: "pystr \<Rightarrow> pystr \<Rightarrow> pystr" where
  "up_to_header nxt r = (case find_hdr nxt r of None \<Rightarrow> r | Some k \<Rightarrow> take k r)"

text \<open>
  Where the group of a search lies in the text, as its start and its length; \<open>None\<close> when
  the search finds nothing. \<open>same_there t t' g\<close>: the text \<open>t'\<close> has the characters of \<open>t\<close>
  at the positions of the group \<open>g\<close>.
\<close>

definition captured :: "pystr \<Rightarrow> (pystr \<Rightarrow> pystr) \<Rightarrow> pystr \<Rightarrow> (nat \<times> nat) option" where
  "captured hdr grp t =
     (case find_hdr hdr t of
        None \<Rightarrow> None
      | Some i \<Rightarrow> Some (i + length hdr, length (grp (drop (i + length hdr) t))))"

definition same_there :: "pystr \<Rightarrow> pystr \<Rightarrow> (nat \<times> nat) option \<Rightarrow> bool" where
  "same_there t t' where_group =
     (case where_group of None \<Rightarrow> True | Some (s, n) \<Rightarrow> take n (drop s t') = take n (drop s t))"

section \<open>Numbers and JSON text as the program prints them\<close>

text \<open>\<open>str(i)\<close> for an \<open>int\<close>: decimal digits, with a minus sign for a negative number.\<close>

fun digits :: "nat \<Rightarrow> pystr" where
  "digits n = (if n < 10 then [48 + n] else digits (n div 10) @ [48 + n mod 10])"

declare digits.simps [simp del]

definition str_int :: "int \<Rightarrow> pystr" where
  "str_int i = (if i < 0 then 45 # digits (nat (- i)) else digits (nat i))"

text \<open>
  The program never computes with its floats, it only prints them. A \<open>float\<close> is
  represented by the text that \<open>float.__repr__\<close> gives for it, which determines the float:
  \<open>39.1\<close>, \<open>1e-05\<close>, and \<open>nan\<close>, \<open>inf\<close>, \<open>-inf\<close> for the three values that are not finite.
\<close>

datatype pyfloat = PyFloat (float_repr: pystr)

text \<open>
  What the request body and the field \<open>objeto_json_valores_previos\<close> hold: the values that
  \<open>json.loads\<close> builds (a \<open>dict\<close> keeps its items in order).
\<close>

datatype json = JNull | JBool bool | JInt int | JFloat pyfloat | JStr pystr
  | JArr "json list" | JObj "(pystr \<times> json) list"

text \<open>
  \<open>json.dumps(obj, indent=2, ensure_ascii=False)\<close>. A string is quoted, with the quote,
  the backslash and the control characters below 32 escaped; nothing else is escaped.
\<close>

definition hex_digit :: "nat \<Rightarrow> nat" where
  "hex_digit d = (if d < 10 then 48 + d else 87 + d)"

definition escape_char :: "nat \<Rightarrow> pystr" where
  "escape_char c =
     (if c = 34 then [92, 34]
      else if c = 92 then [92, 92]
      else if c = 8 then [92, 98]
      else if c = 12 then [92, 102]
      else if c = 10 then [92, 110]
      else if c = 13 then [92, 114]
      else if c = 9 then [92, 116]
      else if c < 32 then [92, 117, 48, 48, hex_digit (c div 16), hex_digit (c mod 16)]
      else [c])"

definition encode_basestring :: "pystr \<Rightarrow> pystr" where
  "encode_basestring s = [34] @ concat (map escape_char s) @ [34]"

text \<open>A float is printed by its \<open>repr\<close>, except the three values that are not finite.\<close>

definition floatstr :: "pyfloat \<Rightarrow> pystr" where
  "floatstr f =
     (if float_repr f = cps ''nan'' then cps ''NaN''
      else if float_repr f = cps ''inf'' then cps ''Infinity''
      else if float_repr f = cps ''-inf'' then cps ''-Infinity''
      else float_repr f)"

fun py_join :: "pystr \<Rightarrow> pystr list \<Rightarrow> pystr" where
  "py_join sep [] = []"
| "py_join sep [x] = x"
| "py_join sep (x # y # ys) = x @ sep @ py_join sep (y # ys)"

definition newline_indent :: "nat \<Rightarrow> pystr" where
  "newline_indent lvl = 10 # concat (replicate lvl [32, 32])"

text \<open>
  The encoder at nesting level \<open>lvl\<close>: an empty list or dict is \<open>[]\<close> or \<open>{}\<close>; otherwise
  each item is on a line of its own, indented by two spaces per level, the items separated
  by a comma, a key and its value by a colon and a space.
\<close>

fun iterencode :: "nat \<Rightarrow> json \<Rightarrow> pystr" where
  "iterencode lvl JNull = cps ''null''"
| "iterencode lvl (JBool b) = (if b then cps ''true'' else cps ''false'')"
| "iterencode lvl (JInt i) = str_int i"
| "iterencode lvl (JFloat f) = floatstr f"
| "iterencode lvl (JStr s) = encode_basestring s"
| "iterencode lvl (JArr vs) =
     (if vs = [] then cps ''[]''
      else [91] @ newline_indent (Suc lvl) @
           py_join (44 # newline_indent (Suc lvl)) (map (iterencode (Suc lvl)) vs) @
           newline_indent lvl @ [93])"
| "iterencode lvl (JObj kvs) =
     (if kvs = [] then cps ''{}''
      else [123] @ newline_indent (Suc lvl) @
           py_join (44 # newline_indent (Suc lvl))
             (map (\<lambda>(k, v). encode_basestring k @ [58, 32] @ iterencode (Suc lvl) v) kvs) @
           newline_indent lvl @ [125])"

definition json_dumps :: "json \<Rightarrow> pystr" where
  "json_dumps obj = iterencode 0 obj"

section \<open>The prompt\<close>

text \<open>
  \<open>str.format\<close> on a template whose replacement fields are plain names, as those of
  \<open>prompt_base\<close> are: the text between \<open>{\<close> and \<open>}\<close> is looked up in the keyword
  arguments, \<open>{{\<close> and \<open>}}\<close> stand for a brace. The second argument is the field name read
  so far, \<open>None\<close> outside a field.
\<close>

definition cons_ok :: "nat \<Rightarrow> pyexn + pystr \<Rightarrow> pyexn + pystr" where
  "cons_ok c r = (case r of Inl e \<Rightarrow> Inl e | Inr s \<Rightarrow> Inr (c # s))"

definition append_ok :: "pystr \<Rightarrow> pyexn + pystr \<Rightarrow> pyexn + pystr" where
  "append_ok v r = (case r of Inl e \<Rightarrow> Inl e | Inr s \<Rightarrow> Inr (v @ s))"

fun format_from :: "(pystr \<rightharpoonup> pystr) \<Rightarrow> pystr option \<Rightarrow> pystr \<Rightarrow> pyexn + pystr" where
  "format_from kw None [] = Inr []"
| "format_from kw (Some name) [] =
     Inl (PyException (cps ''expected '' @ [39, 125, 39] @ cps '' before end of string''))"
| "format_from kw None (c # cs) =
     (if c = 123 then
        (case cs of
           [] \<Rightarrow> Inl (PyException (cps ''Single '' @ [39, 123, 39] @
                  cps '' encountered in format string''))
         | c' # cs' \<Rightarrow>
             if c' = 123 then cons_ok 123 (format_from kw None cs')
             else format_from kw (Some []) cs)
      else if c = 125 then
        (case cs of
           [] \<Rightarrow> Inl (PyException (cps ''Single '' @ [39, 125, 39] @
                  cps '' encountered in format string''))
         | c' # cs' \<Rightarrow>
             if c' = 125 then cons_ok 125 (format_from kw None cs')
             else Inl (PyException (cps ''Single '' @ [39, 125, 39] @
                    cps '' encountered in format string'')))
      else cons_ok c (format_from kw None cs))"
| "format_from kw (Some name) (c # cs) =
     (if c = 125 then
        (case kw name of
           None \<Rightarrow> Inl (PyException ([39] @ name @ [39]))
         | Some v \<Rightarrow> append_ok v (format_from kw None cs))
      else format_from kw (Some (name @ [c])) cs)"

definition py_format :: "pystr \<Rightarrow> (pystr \<rightharpoonup> pystr) \<Rightarrow> pyexn + pystr" where
  "py_format template kw = format_from kw None template"

definition field :: "pystr \<Rightarrow> pystr" where
  "field name = [123] @ name @ [125]"

text \<open>
  \<open>prompt_base\<close>: the literal text of the template, cut at its fourteen replacement
  fields. Code points stand for the line feed (10), the double quote (34), the caret (94)
  and the letters outside ASCII.
\<close>

definition prompt_base_0 :: pystr where
  "prompt_base_0 =
     cps ''### ROL Y OBJETIVO ###'' @ [10] @
     cps ''Act'' @ [250] @ cps ''a como un m'' @ [233] @
     cps ''dico experto en cuidados intensivos y soporte de decisiones cl'' @ [237] @
     cps ''nicas, especializado en la detecci'' @ [243] @ cps ''n temprana de sepsis. Tu prop'' @
     [243] @ cps ''sito es asistir a m'' @ [233] @
     cps ''dicos y enfermeras calificados en un entorno de paciente internado.'' @ [10, 10] @
     cps ''### CONTEXTO ###'' @ [10] @
     cps ''Est'' @ [225] @
     cps ''s analizando los datos de un paciente para identificar el riesgo de '' @
     cps ''sepsis o shock s'' @ [233] @ cps ''ptico. Un modelo de IA interno (de la aplicaci'' @
     [243] @ cps ''n) ha proporcionado una puntuaci'' @ [243] @
     cps ''n de riesgo preliminar. Tu tarea es analizar la totalidad de los datos '' @
     cps ''(cl'' @ [237] @
     cps ''nicos, laboratorio, tendencias y comorbilidades) para proveer un an'' @ [225] @
     cps ''lisis accionable e integrado.'' @ [10, 10] @
     cps ''### DATOS DEL PACIENTE ###'' @ [10] @
     cps ''Analiza los siguientes datos. Presta especial atenci'' @ [243] @
     cps ''n a las combinaciones y tendencias que sugieran disfunci'' @ [243] @ cps ''n org'' @
     [225] @ cps ''nica m'' @ [250] @ cps ''ltiple.'' @ [10, 10] @
     cps ''**1. Datos Actuales (Signos Vitales y Laboratorio Est'' @ [225] @ cps ''ndar):**'' @
     [10] @
     cps ''* Frecuencia Card'' @ [237] @ cps ''aca: ''"

definition prompt_base_1 :: pystr where
  "prompt_base_1 =
     cps '' (lat/min)'' @ [10] @
     cps ''* Presi'' @ [243] @ cps ''n Arterial (Sist'' @ [243] @ cps ''lica/Media): ''"

definition prompt_base_2 :: pystr where
  "prompt_base_2 =
     cps '' (mmHg)'' @ [10] @
     cps ''* Frecuencia Respiratoria: ''"

definition prompt_base_3 :: pystr where
  "prompt_base_3 =
     cps '' (resp/min)'' @ [10] @
     cps ''* Temperatura Corporal: ''"

definition prompt_base_4 :: pystr where
  "prompt_base_4 =
     cps '' ('' @ [176] @ cps ''C)'' @ [10] @
     cps ''* Saturaci'' @ [243] @ cps ''n de Ox'' @ [237] @ cps ''geno (SpO2): ''"

definition prompt_base_5 :: pystr where
  "prompt_base_5 =
     cps '' (%)'' @ [10] @
     cps ''* Procalcitonina (PCT): ''"

definition prompt_base_6 :: pystr where
  "prompt_base_6 =
     cps '' (ng/mL)'' @ [10] @
     cps ''* Lactato: ''"

definition prompt_base_7 :: pystr where
  "prompt_base_7 =
     cps '' (mmol/L)'' @ [10] @
     cps ''* Prote'' @ [237] @ cps ''na C Reactiva (PCR): ''"

definition prompt_base_8 :: pystr where
  "prompt_base_8 =
     cps '' (mg/L)'' @ [10] @
     cps ''* Leucocitos: ''"

definition prompt_base_9 :: pystr where
  "prompt_base_9 =
     cps '' (x10'' @ [94] @ cps ''9/L)'' @ [10, 10] @
     cps ''**2. Historial y Contexto (Formato Estructurado):**'' @ [10] @
     cps ''* Comorbilidades Conocidas (Array JSON): ''"

definition prompt_base_10 :: pystr where
  "prompt_base_10 =
     [10] @
     cps ''* Patolog'' @ [237] @ cps ''as Presentes (String): '' @ [34]"

definition prompt_base_11 :: pystr where
  "prompt_base_11 =
     [34, 10] @
     cps ''* S'' @ [237] @ cps ''ntomas Diarios Reportados (String): '' @ [34]"

definition prompt_base_12 :: pystr where
  "prompt_base_12 =
     [34, 10, 10] @
     cps ''**3. Datos de Tendencia y Modelo Interno:**'' @ [10] @
     cps ''* Valores Previos (Objeto JSON): ''"

definition prompt_base_13 :: pystr where
  "prompt_base_13 =
     [10] @
     cps ''* Puntuaci'' @ [243] @ cps ''n de Riesgo de Sepsis (Modelo IA Interno): ''"

definition prompt_base_14 :: pystr where
  "prompt_base_14 =
     cps ''%'' @ [10, 10] @
     cps ''### INSTRUCCIONES DE AN'' @ [193] @ cps ''LIS... (etc.) ...###'' @ [10, 10] @
     cps ''### FORMATO DE RESPUESTA OBLIGATORIO ###'' @ [10] @
     cps ''Proporciona tu respuesta estrictamente en el siguiente formato de 3 '' @
     cps ''secciones, respetando los l'' @ [237] @ cps ''mites de l'' @ [237] @ cps ''neas:'' @
     [10, 10] @
     cps ''**1. An'' @ [225] @ cps ''lisis Breve:**'' @ [10] @
     cps ''(Resumen conciso del estado y riesgo. **M'' @ [193] @ cps ''XIMO 2 L'' @ [205] @
     cps ''NEAS.**)'' @ [10, 10] @
     cps ''**2. Justificaci'' @ [243] @ cps ''n:**'' @ [10] @
     cps ''(Explicaci'' @ [243] @ cps ''n concisa. Enfocarse *solo* en los 2-3 factores cr'' @
     [237] @ cps ''ticos (ej. '' @ [34] @ cps ''Hipotensi'' @ [243] @
     cps ''n + Lactato elevado'' @ [34] @ cps '') que justifican el an'' @ [225] @
     cps ''lisis. **M'' @ [193] @ cps ''XIMO 5 L'' @ [205] @ cps ''NEAS.**)'' @ [10, 10] @
     cps ''**3. Acciones Sugeridas:**'' @ [10] @
     cps ''(Lista de 3-4 acciones *m'' @ [225] @
     cps ''s urgentes* y priorizadas. Sin explicaciones. **M'' @ [193] @ cps ''XIMO 5 L'' @
     [205] @ cps ''NEAS en total para esta secci'' @ [243] @ cps ''n.**)'' @ [10]"

definition prompt_base :: pystr where
  "prompt_base =
     prompt_base_0 @ field (cps ''FRECUENCIA_CARDIACA'') @ prompt_base_1 @
     field (cps ''PRESION_ARTERIAL'') @ prompt_base_2 @ field (cps ''FRECUENCIA_RESPIRATORIA'') @
     prompt_base_3 @ field (cps ''TEMPERATURA_CORPORAL'') @ prompt_base_4 @
     field (cps ''SATURACION_OXIGENO'') @ prompt_base_5 @ field (cps ''PROCALCITONINA'') @
     prompt_base_6 @ field (cps ''LACTATO'') @ prompt_base_7 @ field (cps ''PCR'') @
     prompt_base_8 @ field (cps ''LEUCOCITOS'') @ prompt_base_9 @
     field (cps ''ARRAY_JSON_COMORBILIDADES'') @ prompt_base_10 @
     field (cps ''TEXTO_PATOLOGIAS_PRESENTES'') @ prompt_base_11 @
     field (cps ''TEXTO_SINTOMAS_DIARIOS'') @ prompt_base_12 @
     field (cps ''OBJETO_JSON_VALORES_PREVIOS'') @ prompt_base_13 @
     field (cps ''PORCENTAJE_IA'') @ prompt_base_14"

text \<open>A text without braces: \<open>str.format\<close> copies it.\<close>

definition no_brace :: "pystr \<Rightarrow> bool" where
  "no_brace s \<longleftrightarrow> 123 \<notin> set s \<and> 125 \<notin> set s"

section \<open>The data model and the endpoint\<close>

record PatientData =
  frecuencia_cardiaca :: int
  presion_arterial :: pystr
  frecuencia_respiratoria :: int
  temperatura_corporal :: pyfloat
  saturacion_oxigeno :: int
  procalcitonina :: pyfloat
  lactato :: pyfloat
  pcr :: pyfloat
  leucocitos :: pyfloat
  array_json_comorbilidades :: "pystr list"
  texto_patologias_presentes :: pystr
  texto_sintomas_diarios :: pystr
  objeto_json_valores_previos :: "(pystr \<times> json) list"
  porcentaje_ia :: int

text \<open>The two \<open>json.dumps\<close> calls of the endpoint.\<close>

definition comorbilidades_formateada :: "PatientData \<Rightarrow> pystr" where
  "comorbilidades_formateada d = json_dumps (JArr (map JStr (array_json_comorbilidades d)))"

definition valores_previos_formateados :: "PatientData \<Rightarrow> pystr" where
  "valores_previos_formateados d = json_dumps (JObj (objeto_json_valores_previos d))"

text \<open>
  The keyword arguments of \<open>prompt_base.format\<close>, each as the text that \<open>format\<close> puts
  in: \<open>str\<close> of an \<open>int\<close> or a \<open>float\<close>, a \<open>str\<close> as it is.
\<close>

definition format_kwargs :: "PatientData \<Rightarrow> (pystr \<times> pystr) list" where
  "format_kwargs d =
     [(cps ''FRECUENCIA_CARDIACA'', str_int (frecuencia_cardiaca d)),
      (cps ''PRESION_ARTERIAL'', presion_arterial d),
      (cps ''FRECUENCIA_RESPIRATORIA'', str_int (frecuencia_respiratoria d)),
      (cps ''TEMPERATURA_CORPORAL'', float_repr (temperatura_corporal d)),
      (cps ''SATURACION_OXIGENO'', str_int (saturacion_oxigeno d)),
      (cps ''PROCALCITONINA'', float_repr (procalcitonina d)),
      (cps ''LACTATO'', float_repr (lactato d)),
      (cps ''PCR'', float_repr (pcr d)),
      (cps ''LEUCOCITOS'', float_repr (leucocitos d)),
      (cps ''ARRAY_JSON_COMORBILIDADES'', comorbilidades_formateada d),
      (cps ''TEXTO_PATOLOGIAS_PRESENTES'', texto_patologias_presentes d),
      (cps ''TEXTO_SINTOMAS_DIARIOS'', texto_sintomas_diarios d),
      (cps ''OBJETO_JSON_VALORES_PREVIOS'', valores_previos_formateados d),
      (cps ''PORCENTAJE_IA'', str_int (porcentaje_ia d))]"

definition prompt_final :: "PatientData \<Rightarrow> pyexn + pystr" where
  "prompt_final d = py_format prompt_base (map_of (format_kwargs d))"

text \<open>The fixed configuration of the model call.\<close>

record safety_setting =
  category :: pystr
  threshold :: pystr

definition safety_settings_config :: "safety_setting list" where
  "safety_settings_config =
     [\<lparr>category = cps ''HARM_CATEGORY_HARASSMENT'', threshold = cps ''BLOCK_NONE''\<rparr>,
      \<lparr>category = cps ''HARM_CATEGORY_HATE_SPEECH'', threshold = cps ''BLOCK_NONE''\<rparr>,
      \<lparr>category = cps ''HARM_CATEGORY_SEXUALLY_EXPLICIT'', threshold = cps ''BLOCK_NONE''\<rparr>,
      \<lparr>category = cps ''HARM_CATEGORY_DANGEROUS_CONTENT'', threshold = cps ''BLOCK_NONE''\<rparr>]"

record GenerationConfig =
  temperature :: pyfloat
  max_output_tokens :: int

definition generation_config :: GenerationConfig where
  "generation_config = \<lparr>temperature = PyFloat (cps ''0.2''), max_output_tokens = 4096\<rparr>"

text \<open>
  The external model is a parameter. It receives the arguments of one
  \<open>model.generate_content\<close> call; the call raises (\<open>Inl\<close>) or returns a response, whose
  \<open>text\<close> attribute raises or is a \<open>str\<close>. The exceptions of the call are instances of
  \<open>Exception\<close>, which is what the handler of the endpoint catches.
\<close>

record generate_content_call =
  contents :: pystr
  call_generation_config :: GenerationConfig
  call_safety_settings :: "safety_setting list"

type_synonym llm = "generate_content_call \<Rightarrow> pyexn + (pyexn + pystr)"

datatype http_exception = HTTPException nat pystr

text \<open>
  The \<open>try\<close> block of the endpoint, with the calls made to the model so far: the prompt is
  rendered, the model is called once, the text of its response is parsed. The first
  exception ends the block.
\<close>

definition analyze_try :: "llm \<Rightarrow> PatientData \<Rightarrow> generate_content_call list \<times> (pyexn + parsed)" where
  "analyze_try model d =
     (case prompt_final d of
        Inl e \<Rightarrow> ([], Inl e)
      | Inr p \<Rightarrow>
          (let call = \<lparr>contents = p, call_generation_config = generation_config,
                       call_safety_settings = safety_settings_config\<rparr>
           in case model call of
                Inl e \<Rightarrow> ([call], Inl e)
              | Inr response \<Rightarrow>
                  (case response of
                     Inl e \<Rightarrow> ([call], Inl e)
                   | Inr text \<Rightarrow> ([call], parse_gemini_response (PyStr text)))))"

text \<open>
  \<open>analyze_patient_endpoint\<close>: the handler \<open>except Exception as e\<close> raises
  \<open>HTTPException(status_code=500, detail=...)\<close> with \<open>str(e)\<close> in the detail.
\<close>

definition analyze_patient_endpoint ::
    "llm \<Rightarrow> PatientData \<Rightarrow> generate_content_call list \<times> (http_exception + parsed)" where
  "analyze_patient_endpoint model d =
     (case analyze_try model d of
        (calls, Inr parsed_response) \<Rightarrow> (calls, Inr parsed_response)
      | (calls, Inl (PyException msg)) \<Rightarrow>
          (calls, Inl (HTTPException 500 (cps ''Error al procesar la solicitud: '' @ msg))))"

section \<open>Start of the process\<close>





section \<open>Valid JSON text\<close>

text \<open>
  The grammar of RFC 8259 as a recogniser, in two steps: the text is cut into tokens, and
  the token sequence has to be one value. Each \<open>..._rest\<close> function reads one piece at the
  start of a text and gives the text after it, or \<open>None\<close> when the piece is not there.
\<close>

definition json_ws :: "nat \<Rightarrow> bool" where
  "json_ws c \<longleftrightarrow> c = 32 \<or> c = 9 \<or> c = 10 \<or> c = 13"

definition is_digit :: "nat \<Rightarrow> bool" where
  "is_digit c \<longleftrightarrow> 48 \<le> c \<and> c \<le> 57"

definition is_hex :: "nat \<Rightarrow> bool" where
  "is_hex c \<longleftrightarrow> is_digit c \<or> (65 \<le> c \<and> c \<le> 70) \<or> (97 \<le> c \<and> c \<le> 102)"

text \<open>
  A string after its opening quote: characters from 32 on, the quote and the backslash
  only in an escape (\<open>\"\<close>, \<open>\\\<close>, \<open>\/\<close>, \<open>\b\<close>, \<open>\f\<close>, \<open>\n\<close>, \<open>\r\<close>, \<open>\t\<close>, or \<open>\u\<close> and four
  hexadecimal digits), up to the closing quote.
\<close>

fun string_rest :: "pystr \<Rightarrow> pystr option" where
  "string_rest [] = None"
| "string_rest [c] = (if c = 34 then Some [] else None)"
| "string_rest (c # e # es) =
     (if c = 34 then Some (e # es)
      else if c = 92 then
        (if e = 34 \<or> e = 92 \<or> e = 47 \<or> e = 98 \<or> e = 102 \<or> e = 110 \<or> e = 114 \<or> e = 116
         then string_rest es
         else if e = 117 \<and> 4 \<le> length es \<and> list_all is_hex (take 4 es)
         then string_rest (drop 4 es)
         else None)
      else if c < 32 then None
      else string_rest (e # es))"

text \<open>
  A number: an optional minus sign, \<open>0\<close> or a digit from 1 to 9 followed by digits, an
  optional fraction (a point and digits), an optional exponent (\<open>e\<close> or \<open>E\<close>, an optional
  sign, digits).
\<close>

definition digits_rest :: "pystr \<Rightarrow> pystr option" where
  "digits_rest s =
     (case s of [] \<Rightarrow> None | c # cs \<Rightarrow> if is_digit c then Some (dropWhile is_digit cs) else None)"

definition int_rest :: "pystr \<Rightarrow> pystr option" where
  "int_rest s =
     (case s of
        [] \<Rightarrow> None
      | c # cs \<Rightarrow>
          if c = 48 then Some cs
          else if 49 \<le> c \<and> c \<le> 57 then Some (dropWhile is_digit cs)
          else None)"

definition frac_rest :: "pystr \<Rightarrow> pystr option" where
  "frac_rest s = (case s of [] \<Rightarrow> Some [] | c # cs \<Rightarrow> if c = 46 then digits_rest cs else Some s)"

definition exp_rest :: "pystr \<Rightarrow> pystr option" where
  "exp_rest s =
     (case s of
        [] \<Rightarrow> Some []
      | c # cs \<Rightarrow>
          if c = 101 \<or> c = 69 then
            (case cs of
               [] \<Rightarrow> None
             | g # ds \<Rightarrow> if g = 43 \<or> g = 45 then digits_rest ds else digits_rest cs)
          else Some s)"

definition number_rest :: "pystr \<Rightarrow> pystr option" where
  "number_rest s =
     Option.bind
       (Option.bind (int_rest (case s of [] \<Rightarrow> [] | c # cs \<Rightarrow> if c = 45 then cs else s)) frac_rest)
       exp_rest"

definition json_number :: "pystr \<Rightarrow> bool" where
  "json_number s \<longleftrightarrow> number_rest s = Some []"

datatype token = LBrace | RBrace | LBracket | RBracket | Comma | Colon
  | TString | TNumber | TTrue | TFalse | TNull

text \<open>What one token at the start of a text is, with the text after it.\<close>

definition next_token :: "pystr \<Rightarrow> (token \<times> pystr) option" where
  "next_token s =
     (case s of
        [] \<Rightarrow> None
      | c # cs \<Rightarrow>
          if c = 123 then Some (LBrace, cs)
          else if c = 125 then Some (RBrace, cs)
          else if c = 91 then Some (LBracket, cs)
          else if c = 93 then Some (RBracket, cs)
          else if c = 44 then Some (Comma, cs)
          else if c = 58 then Some (Colon, cs)
          else if c = 34 then map_option (Pair TString) (string_rest cs)
          else if take 4 s = cps ''true'' then Some (TTrue, drop 4 s)
          else if take 5 s = cps ''false'' then Some (TFalse, drop 5 s)
          else if take 4 s = cps ''null'' then Some (TNull, drop 4 s)
          else map_option (Pair TNumber) (number_rest s))"

text \<open>The tokens of a text, with the white space between them dropped.\<close>

function lex :: "pystr \<Rightarrow> token list option" where
  "lex s =
     (case dropWhile json_ws s of
        [] \<Rightarrow> Some []
      | c # cs \<Rightarrow>
          (case next_token (c # cs) of
             None \<Rightarrow> None
           | Some (t, r) \<Rightarrow>
               if length r < length (c # cs) then map_option ((#) t) (lex r) else None))"
  by pat_completeness auto

termination lex
proof (relation "measure length")
  show "wf (measure length)" by simp
next
  fix s r :: pystr and c cs
  assume "dropWhile json_ws s = c # cs" and "length r < length (c # cs)"
  moreover have "length (dropWhile json_ws s) \<le> length s"
    by (rule length_dropWhile_le)
  ultimately show "(r, s) \<in> measure length" by simp
qed

declare lex.simps [simp del]

text \<open>
  The grammar on tokens, as an automaton with a stack of the arrays and objects that are
  open. \<open>Value\<close>: a value has to come; \<open>ValueOrEnd\<close>: a value or the end of the array just
  opened; \<open>KeyOrEnd\<close>: a key or the end of the object just opened; \<open>Key\<close>, \<open>AfterKey\<close>:
  a key, its colon; \<open>AfterValue\<close>: a comma or the end of the innermost array or object,
  and at the end of the text nothing may be open.
\<close>

datatype expect = Value | ValueOrEnd | KeyOrEnd | Key | AfterKey | AfterValue

datatype opened = InArray | InObject

fun is_scalar :: "token \<Rightarrow> bool" where
  "is_scalar TString = True"
| "is_scalar TNumber = True"
| "is_scalar TTrue = True"
| "is_scalar TFalse = True"
| "is_scalar TNull = True"
| "is_scalar _ = False"

fun run :: "expect \<Rightarrow> opened list \<Rightarrow> token list \<Rightarrow> bool" where
  "run AfterValue [] [] = True"
| "run e st [] = False"
| "run Value st (t # ts) =
     (if is_scalar t then run AfterValue st ts
      else if t = LBracket then run ValueOrEnd (InArray # st) ts
      else if t = LBrace then run KeyOrEnd (InObject # st) ts
      else False)"
| "run ValueOrEnd st (t # ts) =
     (if t = RBracket then run AfterValue (tl st) ts
      else if is_scalar t then run AfterValue st ts
      else if t = LBracket then run ValueOrEnd (InArray # st) ts
      else if t = LBrace then run KeyOrEnd (InObject # st) ts
      else False)"
| "run KeyOrEnd st (t # ts) =
     (if t = RBrace then run AfterValue (tl st) ts
      else if t = TString then run AfterKey st ts
      else False)"
| "run Key st (t # ts) = (if t = TString then run AfterKey st ts else False)"
| "run AfterKey st (t # ts) = (if t = Colon then run Value st ts else False)"
| "run AfterValue [] (t # ts) = False"
| "run AfterValue (InArray # st) (t # ts) =
     (if t = Comma then run Value (InArray # st) ts
      else if t = RBracket then run AfterValue st ts
      else False)"
| "run AfterValue (InObject # st) (t # ts) =
     (if t = Comma then run Key (InObject # st) ts
      else if t = RBrace then run AfterValue st ts
      else False)"

definition json_valid :: "pystr \<Rightarrow> bool" where
  "json_valid s = (case lex s of None \<Rightarrow> False | Some ts \<Rightarrow> run Value [] ts)"

text \<open>
  Every float inside a value is finite: its \<open>repr\<close> is the text of a number, not \<open>nan\<close>,
  \<open>inf\<close> or \<open>-inf\<close>.
\<close>

fun finite_floats :: "json \<Rightarrow> bool" where
  "finite_floats (JFloat f) = json_number (float_repr f)"
| "finite_floats (JArr vs) = list_all finite_floats vs"
| "finite_floats (JObj kvs) = list_all (\<lambda>kv. finite_floats (snd kv)) kvs"
| "finite_floats _ = True"

text \<open>
  What may follow a number for the number to end there: the end of the text, or a
  character that no number continues with.
\<close>

definition ends_number :: "pystr \<Rightarrow> bool" where
  "ends_number rest \<longleftrightarrow>
     (case rest of [] \<Rightarrow> True | c # cs \<Rightarrow> \<not> is_digit c \<and> c \<noteq> 46 \<and> c \<noteq> 101 \<and> c \<noteq> 69)"

text \<open>The tokens of the text that the encoder writes for a value.\<close>

fun tjoin :: "token list list \<Rightarrow> token list" where
  "tjoin [] = []"
| "tjoin [x] = x"
| "tjoin (x # y # ys) = x @ Comma # tjoin (y # ys)"

fun toks :: "json \<Rightarrow> token list" where
  "toks JNull = [TNull]"
| "toks (JBool b) = [if b then TTrue else TFalse]"
| "toks (JInt i) = [TNumber]"
| "toks (JFloat f) = [TNumber]"
| "toks (JStr s) = [TString]"
| "toks (JArr vs) = LBracket # tjoin (map toks vs) @ [RBracket]"
| "toks (JObj kvs) = LBrace # tjoin (map (\<lambda>(k, v). TString # Colon # toks v) kvs) @ [RBrace]"

text \<open>Tokens put in front of the tokens of the rest of a text, when that rest has tokens.\<close>

definition before :: "token list \<Rightarrow> token list option \<Rightarrow> token list option" where
  "before ts r = map_option ((@) ts) r"


section \<open>Replies used as concrete inputs\<close>

text \<open>The three sections in order, each with the whitespace and parentheses of the format.\<close>

definition reply_three :: pystr where
  "reply_three =
     cps ''Ok. '' @ header_analisis @ [10] @ cps ''(Riesgo alto.)'' @ [10, 10] @
     header_justificacion @ cps '' Lactato 3.1 '' @ [10] @
     header_acciones @ [10] @ cps ''(1. Cultivos)'' @ [10]"

text \<open>The same reply with its headers in capitals (\<open>193\<close>, \<open>211\<close>: capital a-acute, o-acute).\<close>

definition reply_three_upper :: pystr where
  "reply_three_upper =
     cps ''Ok. '' @ (cps ''**1. AN'' @ [193] @ cps ''LISIS BREVE:**'') @ [10] @
     cps ''(Riesgo alto.)'' @ [10, 10] @
     (cps ''**2. JUSTIFICACI'' @ [211] @ cps ''N:**'') @ cps '' Lactato 3.1 '' @ [10] @
     cps ''**3. ACCIONES SUGERIDAS:**'' @ [10] @ cps ''(1. Cultivos)'' @ [10]"

text \<open>Replies in which one header is absent.\<close>

definition reply_no_analisis :: pystr where
  "reply_no_analisis =
     cps ''x '' @ header_justificacion @ cps '' b '' @ header_acciones @ cps '' c''"

definition reply_no_justificacion :: pystr where
  "reply_no_justificacion = header_analisis @ cps '' a '' @ header_acciones @ cps '' c''"

definition reply_no_acciones :: pystr where
  "reply_no_acciones = header_analisis @ cps '' a '' @ header_justificacion @ cps '' b''"

text \<open>A reply without header 1 in which header 3 comes before header 2.\<close>

definition reply_acciones_first :: pystr where
  "reply_acciones_first = header_acciones @ cps '' c '' @ header_justificacion @ cps '' b''"

text \<open>A reply with header 1 only, and the same reply with that header in lower case.\<close>

definition reply_single :: pystr where
  "reply_single = header_analisis @ cps '' (Estable) ''"

definition reply_single_lower :: pystr where
  "reply_single_lower = (cps ''**1. an'' @ [225] @ cps ''lisis breve:**'') @ cps '' (Estable) ''"

text \<open>\<open>reply_no_justificacion\<close> with its third header in lower case.\<close>

definition reply_lower_acciones :: pystr where
  "reply_lower_acciones =
     header_analisis @ cps '' a '' @ cps ''**3. acciones sugeridas:**'' @ cps '' c''"

section \<open>Requests and models used as concrete inputs\<close>

text \<open>The patient of the \<open>example\<close> values in the class \<open>PatientData\<close>.\<close>

definition example_patient :: PatientData where
  "example_patient =
     \<lparr>frecuencia_cardiaca = 125, presion_arterial = cps ''85/45'',
      frecuencia_respiratoria = 28, temperatura_corporal = PyFloat (cps ''39.1''),
      saturacion_oxigeno = 89, procalcitonina = PyFloat (cps ''4.5''),
      lactato = PyFloat (cps ''3.1''), pcr = PyFloat (cps ''210.0''),
      leucocitos = PyFloat (cps ''18.2''),
      array_json_comorbilidades = [cps ''EPOC'', cps ''Hipertensi'' @ [243] @ cps ''n''],
      texto_patologias_presentes =
        cps ''Neumon'' @ [237] @ cps ''a Adquirida en la Comunidad (NAC)'',
      texto_sintomas_diarios = cps ''Confusi'' @ [243] @ cps ''n aguda, disnea severa.'',
      objeto_json_valores_previos =
        [(cps ''lactato_previo'', JFloat (PyFloat (cps ''1.1''))),
         (cps ''pa_previa'', JStr (cps ''110/70''))],
      porcentaje_ia = 85\<rparr>"

text \<open>A model whose call fails, and one that answers with \<open>reply_three\<close>.\<close>

definition failing_model :: llm where
  "failing_model call = Inl (PyException (cps ''503 Service Unavailable''))"

definition stub_model :: llm where
  "stub_model call = Inr (Inr reply_three)"


text \<open>
  The example patient with a prior value that is not a number, as the body
  \<open>{"lactato_previo": NaN}\<close> gives it: \<open>json.loads\<close> reads \<open>NaN\<close> as a float.
\<close>

definition patient_nan :: PatientData where
  "patient_nan =
     example_patient
       \<lparr>objeto_json_valores_previos := [(cps ''lactato_previo'', JFloat (PyFloat (cps ''nan'')))]\<rparr>"

section \<open>Facts about matching\<close>

lemma lit_match_drop: "lit_match p t = Some r \<Longrightarrow> r = drop (length p) t"
  by (induction p t rule: lit_match.induct) (auto split: if_splits)

lemma lit_match_iff:
  "lit_match p t \<noteq> None \<longleftrightarrow>
     length p \<le> length t \<and> map sre_fold (take (length p) t) = map sre_fold p"
  by (induction p t rule: lit_match.induct) auto

lemma lit_match_append: "lit_match p (p @ t) = Some t"
  by (induction p) auto

lemma scan_find:
  "scan hdr grp t =
     (case find_hdr hdr t of None \<Rightarrow> None | Some i \<Rightarrow> Some (grp (drop (i + length hdr) t)))"
proof (induction t)
  case Nil
  show ?case
    by (cases "lit_match hdr []") (auto dest: lit_match_drop)
next
  case (Cons c cs)
  show ?case
  proof (cases "lit_match hdr (c # cs)")
    case None
    with Cons show ?thesis
      by (cases "find_hdr hdr cs") auto
  next
    case (Some r)
    then show ?thesis
      using lit_match_drop [OF Some] by simp
  qed
qed

lemma lazy_until_find:
  "lazy_until nxt t = (case find_hdr nxt t of None \<Rightarrow> t | Some i \<Rightarrow> take i t)"
proof (induction t)
  case Nil
  show ?case by simp
next
  case (Cons c cs)
  show ?case
  proof (cases "lit_match nxt (c # cs)")
    case None
    with Cons show ?thesis
      by (cases "find_hdr nxt cs") auto
  next
    case (Some r)
    then show ?thesis by simp
  qed
qed

lemma find_hdr_drop:
  "find_hdr hdr t = Some i \<Longrightarrow> k \<le> i \<Longrightarrow> find_hdr hdr (drop k t) = Some (i - k)"
proof (induction t arbitrary: i k)
  case Nil
  then show ?case by (auto split: if_splits)
next
  case (Cons c cs)
  show ?case
  proof (cases k)
    case 0
    with Cons.prems show ?thesis by simp
  next
    case (Suc k')
    with Cons.prems obtain i' where i': "find_hdr hdr cs = Some i'" "i = Suc i'"
      by (auto split: if_splits)
    with Cons.prems Suc have "k' \<le> i'" by simp
    from Cons.IH [OF i'(1) this] show ?thesis
      using Suc i' by simp
  qed
qed

lemma find_hdr_drop_None: "find_hdr hdr t = None \<Longrightarrow> find_hdr hdr (drop k t) = None"
proof (induction t arbitrary: k)
  case Nil
  then show ?case by simp
next
  case (Cons c cs)
  then show ?case
    by (cases k) (auto split: if_splits)
qed

lemma find_hdr_fold_cong:
  "map sre_fold t = map sre_fold t' \<Longrightarrow> find_hdr hdr t = find_hdr hdr t'"
proof (induction t arbitrary: t')
  case Nil
  then show ?case by simp
next
  case (Cons c cs)
  then obtain c' cs' where t': "t' = c' # cs'" and c: "sre_fold c = sre_fold c'"
    and cs: "map sre_fold cs = map sre_fold cs'"
    by (cases t') auto
  have len: "length cs = length cs'"
    using cs by (rule map_eq_imp_length_eq)
  have "map sre_fold (take (length hdr) (c # cs)) = map sre_fold (take (length hdr) (c' # cs'))"
    using Cons.prems t' by (simp only: take_map [symmetric])
  then have "lit_match hdr (c # cs) \<noteq> None \<longleftrightarrow> lit_match hdr (c' # cs') \<noteq> None"
    using len by (simp only: lit_match_iff length_Cons)
  then show ?case
    using Cons.IH [OF cs] t' by simp
qed

lemma scan_absent: "find_hdr hdr t = None \<Longrightarrow> scan hdr grp t = None"
  by (simp add: scan_find)

lemma scan_rest:
  "find_hdr hdr t = Some i \<Longrightarrow> scan hdr grp t = Some (grp (drop (i + length hdr) t))"
  by (simp add: scan_find)

lemma scan_section:
  assumes "find_hdr hdr t = Some i" and "find_hdr nxt t = Some j" and "i + length hdr \<le> j"
  shows "scan hdr (lazy_until nxt) t =
           Some (take (j - (i + length hdr)) (drop (i + length hdr) t))"
  using assms(1) find_hdr_drop [OF assms(2,3)] by (simp add: scan_find lazy_until_find)

lemma scan_section_end:
  assumes "find_hdr hdr t = Some i" and "find_hdr nxt t = None"
  shows "scan hdr (lazy_until nxt) t = Some (drop (i + length hdr) t)"
  using assms(1) find_hdr_drop_None [OF assms(2)] by (simp add: scan_find lazy_until_find)

section \<open>Facts about the parser\<close>

lemmas parse_defs = parse_gemini_response_def try_parse_def re_search_def clean_or_def
  clean_def strip_def strip_chars_def strip_by_def py_isspace_def
  header_analisis_def header_justificacion_def header_acciones_def
  placeholder_analisis_def placeholder_justificacion_def placeholder_acciones_def
  cps_def sre_fold_def

lemma parse_str:
  "parse_gemini_response (PyStr t) =
     Inr \<lparr>analisis_breve =
            clean_or placeholder_analisis
              (scan header_analisis (lazy_until header_justificacion) t),
          justificacion =
            clean_or placeholder_justificacion
              (scan header_justificacion (lazy_until header_acciones) t),
          acciones_sugeridas =
            clean_or placeholder_acciones (scan header_acciones (\<lambda>rest. rest) t)\<rparr>"
  by (simp add: parse_gemini_response_def try_parse_def re_search_def)

lemma parse_in_order:
  assumes t: "t = pre @ h1 @ a @ h2 @ b @ h3 @ c"
    and len: "length h1 = length header_analisis" "length h2 = length header_justificacion"
      "length h3 = length header_acciones"
    and f1: "find_hdr header_analisis t = Some (length pre)"
    and f2: "find_hdr header_justificacion t = Some (length (pre @ h1 @ a))"
    and f3: "find_hdr header_acciones t = Some (length (pre @ h1 @ a @ h2 @ b))"
  shows "parse_gemini_response (PyStr t) =
     Inr \<lparr>analisis_breve = PyStr (clean a), justificacion = PyStr (clean b),
          acciones_sugeridas = PyStr (clean c)\<rparr>"
proof -
  have s1: "scan header_analisis (lazy_until header_justificacion) t = Some a"
    using scan_section [OF f1 f2] t len by simp
  have s2: "scan header_justificacion (lazy_until header_acciones) t = Some b"
    using scan_section [OF f2 f3] t len by simp
  have s3: "scan header_acciones (\<lambda>rest. rest) t = Some c"
    using scan_rest [OF f3, of "\<lambda>rest. rest"] t len by simp
  show ?thesis
    by (simp add: parse_str s1 s2 s3 clean_or_def)
qed

lemma scan_after:
  "find_hdr hdr t \<noteq> None \<Longrightarrow> scan hdr grp t = Some (grp (after_header hdr t))"
  by (auto simp: scan_find after_header_def)

lemma lazy_until_up_to: "lazy_until nxt r = up_to_header nxt r"
  by (simp add: lazy_until_find up_to_header_def)

lemma up_to_absent:
  "find_hdr nxt t = None \<Longrightarrow> up_to_header nxt (after_header hdr t) = after_header hdr t"
  by (cases "find_hdr hdr t")
    (simp_all add: up_to_header_def after_header_def find_hdr_drop_None)

lemmas span_defs = after_header_def up_to_header_def captured_def same_there_def

lemma lazy_until_prefix: "lazy_until nxt r = take (length (lazy_until nxt r)) r"
  by (cases "find_hdr nxt r") (simp_all add: lazy_until_find min_def)

lemma lazy_until_length_fold:
  assumes "map sre_fold r' = map sre_fold r"
  shows "length (lazy_until nxt r') = length (lazy_until nxt r)"
proof -
  have "length r' = length r"
    using assms by (rule map_eq_imp_length_eq)
  moreover have "find_hdr nxt r' = find_hdr nxt r"
    using assms by (rule find_hdr_fold_cong)
  ultimately show ?thesis
    by (cases "find_hdr nxt r") (simp_all add: lazy_until_find)
qed

lemma scan_recased:
  assumes fold: "map sre_fold t' = map sre_fold t"
    and same: "same_there t t' (captured hdr grp t)"
    and pre: "\<And>r. grp r = take (length (grp r)) r"
    and len: "\<And>r r'. map sre_fold r' = map sre_fold r \<Longrightarrow> length (grp r') = length (grp r)"
  shows "scan hdr grp t' = scan hdr grp t"
proof (cases "find_hdr hdr t")
  case None
  moreover have "find_hdr hdr t' = find_hdr hdr t"
    using fold by (rule find_hdr_fold_cong)
  ultimately show ?thesis
    by (simp add: scan_find)
next
  case (Some i)
  define s where "s = i + length hdr"
  have f': "find_hdr hdr t' = Some i"
    using Some find_hdr_fold_cong [OF fold] by simp
  have "map sre_fold (drop s t') = map sre_fold (drop s t)"
    using arg_cong [OF fold, of "drop s"] by (simp add: drop_map)
  then have n: "length (grp (drop s t')) = length (grp (drop s t))"
    by (rule len)
  have "take (length (grp (drop s t))) (drop s t') = take (length (grp (drop s t))) (drop s t)"
    using same Some by (simp add: same_there_def captured_def s_def)
  then have "grp (drop s t') = grp (drop s t)"
    using pre [of "drop s t'"] pre [of "drop s t"] n by simp
  then show ?thesis
    using Some f' by (simp add: scan_find s_def)
qed

section \<open>The claims about the parser\<close>

lemmas reply_defs = reply_three_def reply_three_upper_def reply_no_analisis_def
  reply_no_justificacion_def reply_no_acciones_def reply_lower_acciones_def
  reply_acciones_first_def reply_single_def reply_single_lower_def

text \<open>
  Claim C1. A reply that contains the three section headers in that order: the first
  occurrence of header 1 is at the end of \<open>pre\<close>, the first occurrence of header 2 comes
  after the text \<open>a\<close> that follows it, and the first occurrence of header 3 after the text
  \<open>b\<close> that follows header 2. The parser returns \<open>a\<close>, \<open>b\<close> and the text \<open>c\<close> after
  header 3, each stripped of whitespace, then of parentheses, then of whitespace.
\<close>

theorem parse_three_headers_in_order:
  assumes "t = pre @ header_analisis @ a @ header_justificacion @ b @ header_acciones @ c"
    and "find_hdr header_analisis t = Some (length pre)"
    and "find_hdr header_justificacion t = Some (length (pre @ header_analisis @ a))"
    and "find_hdr header_acciones t =
           Some (length (pre @ header_analisis @ a @ header_justificacion @ b))"
  shows "parse_gemini_response (PyStr t) =
     Inr \<lparr>analisis_breve = PyStr (clean a), justificacion = PyStr (clean b),
          acciones_sugeridas = PyStr (clean c)\<rparr>"
  using assms by (intro parse_in_order) auto

theorem parse_three_headers_in_order_witness:
  "find_hdr header_analisis reply_three = Some 4 \<and>
   find_hdr header_justificacion reply_three = Some 43 \<and>
   find_hdr header_acciones reply_three = Some 78 \<and>
   parse_gemini_response (PyStr reply_three) =
     Inr \<lparr>analisis_breve = PyStr (cps ''Riesgo alto.''),
          justificacion = PyStr (cps ''Lactato 3.1''),
          acciones_sugeridas = PyStr (cps ''1. Cultivos'')\<rparr>"
proof -
  have f1: "find_hdr header_analisis reply_three = Some 4"
    by (simp add: reply_defs parse_defs)
  have f2: "find_hdr header_justificacion reply_three = Some 43"
    by (simp add: reply_defs parse_defs)
  have f3: "find_hdr header_acciones reply_three = Some 78"
    by (simp add: reply_defs parse_defs)
  have c1: "clean ([10] @ cps ''(Riesgo alto.)'' @ [10, 10]) = cps ''Riesgo alto.''"
    by (simp add: parse_defs)
  have c2: "clean (cps '' Lactato 3.1 '' @ [10]) = cps ''Lactato 3.1''"
    by (simp add: parse_defs)
  have c3: "clean ([10] @ cps ''(1. Cultivos)'' @ [10]) = cps ''1. Cultivos''"
    by (simp add: parse_defs)
  have "parse_gemini_response (PyStr reply_three) =
     Inr \<lparr>analisis_breve = PyStr (clean ([10] @ cps ''(Riesgo alto.)'' @ [10, 10])),
          justificacion = PyStr (clean (cps '' Lactato 3.1 '' @ [10])),
          acciones_sugeridas = PyStr (clean ([10] @ cps ''(1. Cultivos)'' @ [10]))\<rparr>"
    using f1 f2 f3
    by (intro parse_three_headers_in_order [where pre = "cps ''Ok. ''"])
      (simp_all add: reply_three_def header_analisis_def header_justificacion_def cps_def)
  then show ?thesis
    using f1 f2 f3 by (simp only: c1 c2 c3 simp_thms)
qed

text \<open>
  Claim C3. For a reply in which none of the three headers is found (the empty reply is
  one), the parser returns a result, not an exception, and its three fields are the three
  fixed placeholders.
\<close>

theorem parse_no_headers:
  assumes "find_hdr header_analisis t = None"
    and "find_hdr header_justificacion t = None"
    and "find_hdr header_acciones t = None"
  shows "parse_gemini_response (PyStr t) =
     Inr \<lparr>analisis_breve = PyStr placeholder_analisis,
          justificacion = PyStr placeholder_justificacion,
          acciones_sugeridas = PyStr placeholder_acciones\<rparr>"
  using assms by (simp add: parse_str scan_absent clean_or_def)

theorem parse_no_headers_witness:
  "find_hdr header_analisis [] = None \<and> find_hdr header_justificacion [] = None \<and>
   find_hdr header_acciones [] = None \<and>
   parse_gemini_response (PyStr []) =
     Inr \<lparr>analisis_breve = PyStr placeholder_analisis,
          justificacion = PyStr placeholder_justificacion,
          acciones_sugeridas = PyStr placeholder_acciones\<rparr>"
proof -
  have f1: "find_hdr header_analisis [] = None"
    by (simp add: header_analisis_def cps_def)
  have f2: "find_hdr header_justificacion [] = None"
    by (simp add: header_justificacion_def cps_def)
  have f3: "find_hdr header_acciones [] = None"
    by (simp add: header_acciones_def cps_def)
  show ?thesis
    using f1 f2 f3 parse_no_headers [OF f1 f2 f3] by simp
qed

text \<open>
  Claim C4. For every input, a \<open>str\<close> or not, \<open>parse_gemini_response\<close> returns a result;
  no exception reaches the caller. When the \<open>try\<close> block raises, the first field of the
  result is the input as it was given.
\<close>

theorem parse_never_raises:
  "\<exists>d. parse_gemini_response v = Inr d \<and>
       ((\<exists>e. try_parse v = Inl e) \<longrightarrow> analisis_breve d = v)"
  by (cases "try_parse v") (simp_all add: parse_gemini_response_def)

theorem parse_never_raises_witness:
  "(\<exists>e. try_parse PyNone = Inl e) \<and>
   (\<exists>d. parse_gemini_response PyNone = Inr d \<and> analisis_breve d = PyNone)"
proof -
  have e: "\<exists>e. try_parse PyNone = Inl e"
    by (simp add: try_parse_def re_search_def)
  show ?thesis
    using e parse_never_raises [of PyNone] by blast
qed

text \<open>
  Claim C2 does not hold when header 2 is the absent one: in the reply
  \<open>**1. Analisis Breve:** a **3. Acciones Sugeridas:** c\<close> the text that the reply
  delimits for section 1 is \<open>a\<close>, but the first pattern stops only at header 2 or at the
  end of the text, so \<open>analisis_breve\<close> also holds header 3 and the third section.
\<close>

theorem one_header_absent_counterexample:
  "reply_no_justificacion = header_analisis @ cps '' a '' @ header_acciones @ cps '' c'' \<and>
   find_hdr header_analisis reply_no_justificacion = Some 0 \<and>
   find_hdr header_justificacion reply_no_justificacion = None \<and>
   find_hdr header_acciones reply_no_justificacion = Some 25 \<and>
   parse_gemini_response (PyStr reply_no_justificacion) =
     Inr \<lparr>analisis_breve = PyStr (cps ''a '' @ header_acciones @ cps '' c''),
          justificacion = PyStr placeholder_justificacion,
          acciones_sugeridas = PyStr (cps ''c'')\<rparr> \<and>
   parse_gemini_response (PyStr reply_no_justificacion) \<noteq>
     Inr \<lparr>analisis_breve = PyStr (clean (cps '' a '')),
          justificacion = PyStr placeholder_justificacion,
          acciones_sugeridas = PyStr (clean (cps '' c''))\<rparr>"
  by (simp add: reply_defs parse_defs)

text \<open>
  Claim C2, amended. In a reply where exactly one header is absent, the section of the
  absent header is its placeholder. Each of the other two sections is the cleaned text that
  starts after the first occurrence of its own header and runs to the next occurrence of
  the header that follows it in the format (header 2 for section 1, header 3 for section
  2), or to the end of the reply when that header does not occur after it; section 3 always
  runs to the end. So with header 2 absent, \<open>analisis_breve\<close> is all the text after header
  1, header 3 and the third section included.
\<close>

theorem parse_one_header_absent:
  "(find_hdr header_analisis t = None \<and> find_hdr header_justificacion t \<noteq> None \<and>
    find_hdr header_acciones t \<noteq> None \<longrightarrow>
    parse_gemini_response (PyStr t) =
      Inr \<lparr>analisis_breve = PyStr placeholder_analisis,
           justificacion =
             PyStr (clean (up_to_header header_acciones (after_header header_justificacion t))),
           acciones_sugeridas = PyStr (clean (after_header header_acciones t))\<rparr>) \<and>
   (find_hdr header_justificacion t = None \<and> find_hdr header_analisis t \<noteq> None \<and>
    find_hdr header_acciones t \<noteq> None \<longrightarrow>
    parse_gemini_response (PyStr t) =
      Inr \<lparr>analisis_breve = PyStr (clean (after_header header_analisis t)),
           justificacion = PyStr placeholder_justificacion,
           acciones_sugeridas = PyStr (clean (after_header header_acciones t))\<rparr>) \<and>
   (find_hdr header_acciones t = None \<and> find_hdr header_analisis t \<noteq> None \<and>
    find_hdr header_justificacion t \<noteq> None \<longrightarrow>
    parse_gemini_response (PyStr t) =
      Inr \<lparr>analisis_breve =
             PyStr (clean (up_to_header header_justificacion (after_header header_analisis t))),
           justificacion = PyStr (clean (after_header header_justificacion t)),
           acciones_sugeridas = PyStr placeholder_acciones\<rparr>)"
proof (intro conjI impI)
  assume "find_hdr header_analisis t = None \<and> find_hdr header_justificacion t \<noteq> None \<and>
    find_hdr header_acciones t \<noteq> None"
  then have a: "find_hdr header_analisis t = None" and j: "find_hdr header_justificacion t \<noteq> None"
    and c: "find_hdr header_acciones t \<noteq> None"
    by blast+
  show "parse_gemini_response (PyStr t) =
      Inr \<lparr>analisis_breve = PyStr placeholder_analisis,
           justificacion =
             PyStr (clean (up_to_header header_acciones (after_header header_justificacion t))),
           acciones_sugeridas = PyStr (clean (after_header header_acciones t))\<rparr>"
    by (simp add: parse_str scan_absent [OF a] scan_after [OF j] scan_after [OF c]
        lazy_until_up_to clean_or_def)
next
  assume "find_hdr header_justificacion t = None \<and> find_hdr header_analisis t \<noteq> None \<and>
    find_hdr header_acciones t \<noteq> None"
  then have j: "find_hdr header_justificacion t = None" and a: "find_hdr header_analisis t \<noteq> None"
    and c: "find_hdr header_acciones t \<noteq> None"
    by blast+
  show "parse_gemini_response (PyStr t) =
      Inr \<lparr>analisis_breve = PyStr (clean (after_header header_analisis t)),
           justificacion = PyStr placeholder_justificacion,
           acciones_sugeridas = PyStr (clean (after_header header_acciones t))\<rparr>"
    by (simp add: parse_str scan_absent [OF j] scan_after [OF a] scan_after [OF c]
        lazy_until_up_to up_to_absent [OF j] clean_or_def)
next
  assume "find_hdr header_acciones t = None \<and> find_hdr header_analisis t \<noteq> None \<and>
    find_hdr header_justificacion t \<noteq> None"
  then have c: "find_hdr header_acciones t = None" and a: "find_hdr header_analisis t \<noteq> None"
    and j: "find_hdr header_justificacion t \<noteq> None"
    by blast+
  show "parse_gemini_response (PyStr t) =
      Inr \<lparr>analisis_breve =
             PyStr (clean (up_to_header header_justificacion (after_header header_analisis t))),
           justificacion = PyStr (clean (after_header header_justificacion t)),
           acciones_sugeridas = PyStr placeholder_acciones\<rparr>"
    by (simp add: parse_str scan_absent [OF c] scan_after [OF a] scan_after [OF j]
        lazy_until_up_to up_to_absent [OF c] clean_or_def)
qed

theorem parse_one_header_absent_witness:
  "(find_hdr header_analisis reply_no_analisis = None \<and>
    find_hdr header_justificacion reply_no_analisis = Some 2 \<and>
    find_hdr header_acciones reply_no_analisis = Some 26 \<and>
    parse_gemini_response (PyStr reply_no_analisis) =
      Inr \<lparr>analisis_breve = PyStr placeholder_analisis, justificacion = PyStr (cps ''b''),
           acciones_sugeridas = PyStr (cps ''c'')\<rparr>) \<and>
   (find_hdr header_analisis reply_acciones_first = None \<and>
    find_hdr header_justificacion reply_acciones_first = Some 29 \<and>
    find_hdr header_acciones reply_acciones_first = Some 0 \<and>
    parse_gemini_response (PyStr reply_acciones_first) =
      Inr \<lparr>analisis_breve = PyStr placeholder_analisis, justificacion = PyStr (cps ''b''),
           acciones_sugeridas = PyStr (cps ''c '' @ header_justificacion @ cps '' b'')\<rparr>) \<and>
   (find_hdr header_justificacion reply_no_justificacion = None \<and>
    find_hdr header_analisis reply_no_justificacion = Some 0 \<and>
    find_hdr header_acciones reply_no_justificacion = Some 25 \<and>
    parse_gemini_response (PyStr reply_no_justificacion) =
      Inr \<lparr>analisis_breve = PyStr (cps ''a '' @ header_acciones @ cps '' c''),
           justificacion = PyStr placeholder_justificacion,
           acciones_sugeridas = PyStr (cps ''c'')\<rparr>) \<and>
   (find_hdr header_acciones reply_no_acciones = None \<and>
    find_hdr header_analisis reply_no_acciones = Some 0 \<and>
    find_hdr header_justificacion reply_no_acciones = Some 25 \<and>
    parse_gemini_response (PyStr reply_no_acciones) =
      Inr \<lparr>analisis_breve = PyStr (cps ''a''), justificacion = PyStr (cps ''b''),
           acciones_sugeridas = PyStr placeholder_acciones\<rparr>)"
proof -
  have a1: "find_hdr header_analisis reply_no_analisis = None"
    and a2: "find_hdr header_justificacion reply_no_analisis = Some 2"
    and a3: "find_hdr header_acciones reply_no_analisis = Some 26"
    by (simp_all add: reply_defs parse_defs)
  have r1: "find_hdr header_analisis reply_acciones_first = None"
    and r2: "find_hdr header_justificacion reply_acciones_first = Some 29"
    and r3: "find_hdr header_acciones reply_acciones_first = Some 0"
    by (simp_all add: reply_defs parse_defs)
  have c2: "find_hdr header_justificacion reply_no_justificacion = None"
    and c1: "find_hdr header_analisis reply_no_justificacion = Some 0"
    and c3: "find_hdr header_acciones reply_no_justificacion = Some 25"
    by (simp_all add: reply_defs parse_defs)
  have b3: "find_hdr header_acciones reply_no_acciones = None"
    and b1: "find_hdr header_analisis reply_no_acciones = Some 0"
    and b2: "find_hdr header_justificacion reply_no_acciones = Some 25"
    by (simp_all add: reply_defs parse_defs)
  have va: "clean (up_to_header header_acciones (after_header header_justificacion reply_no_analisis)) =
      cps ''b''"
    "clean (after_header header_acciones reply_no_analisis) = cps ''c''"
    by (simp_all add: span_defs a2 a3) (simp_all add: reply_defs parse_defs)
  have vr: "clean (up_to_header header_acciones
        (after_header header_justificacion reply_acciones_first)) = cps ''b''"
    "clean (after_header header_acciones reply_acciones_first) =
       cps ''c '' @ header_justificacion @ cps '' b''"
    by (simp_all add: span_defs r2 r3) (simp_all add: reply_defs parse_defs)
  have vc: "clean (after_header header_analisis reply_no_justificacion) =
      cps ''a '' @ header_acciones @ cps '' c''"
    "clean (after_header header_acciones reply_no_justificacion) = cps ''c''"
    by (simp_all add: span_defs c1 c3) (simp_all add: reply_defs parse_defs)
  have vb: "clean (up_to_header header_justificacion
        (after_header header_analisis reply_no_acciones)) = cps ''a''"
    "clean (after_header header_justificacion reply_no_acciones) = cps ''b''"
    by (simp_all add: span_defs b1 b2) (simp_all add: reply_defs parse_defs)
  show ?thesis
    using parse_one_header_absent [of reply_no_analisis]
      parse_one_header_absent [of reply_acciones_first]
      parse_one_header_absent [of reply_no_justificacion]
      parse_one_header_absent [of reply_no_acciones]
    by (simp add: a1 a2 a3 r1 r2 r3 c1 c2 c3 b1 b2 b3 va vr vc vb)
qed

text \<open>
  Claim C10 does not hold for every input text. In a reply without header 2, the text
  captured for section 1 runs to the end and holds header 3 itself, so writing header 3 in
  lower case changes \<open>analisis_breve\<close>: the header is still found, but the field that
  contains it is returned in the letter case of the reply.
\<close>

theorem header_case_counterexample:
  "map sre_fold (cps ''**3. acciones sugeridas:**'') = map sre_fold header_acciones \<and>
   reply_no_justificacion = header_analisis @ cps '' a '' @ header_acciones @ cps '' c'' \<and>
   reply_lower_acciones =
     header_analisis @ cps '' a '' @ cps ''**3. acciones sugeridas:**'' @ cps '' c'' \<and>
   parse_gemini_response (PyStr reply_lower_acciones) \<noteq>
     parse_gemini_response (PyStr reply_no_justificacion)"
  by (simp add: reply_defs parse_defs)

text \<open>
  Claim C10, amended. Header matching is case-insensitive: when a text is changed only in
  the letter case of its headers, each search finds its header at the same place, and the
  three-field result is the same, provided that no changed header lies inside the text
  captured for a section (as header 3 does for section 1 when header 2 is absent).
\<close>

theorem header_case_outside_captures:
  assumes "map sre_fold t' = map sre_fold t"
    and "same_there t t' (captured header_analisis (lazy_until header_justificacion) t)"
    and "same_there t t' (captured header_justificacion (lazy_until header_acciones) t)"
    and "same_there t t' (captured header_acciones (\<lambda>rest. rest) t)"
  shows "parse_gemini_response (PyStr t') = parse_gemini_response (PyStr t)"
proof -
  have s1: "scan header_analisis (lazy_until header_justificacion) t' =
      scan header_analisis (lazy_until header_justificacion) t"
    using assms(1,2) by (rule scan_recased) (rule lazy_until_prefix, rule lazy_until_length_fold)
  have s2: "scan header_justificacion (lazy_until header_acciones) t' =
      scan header_justificacion (lazy_until header_acciones) t"
    using assms(1,3) by (rule scan_recased) (rule lazy_until_prefix, rule lazy_until_length_fold)
  have s3: "scan header_acciones (\<lambda>rest. rest) t' = scan header_acciones (\<lambda>rest. rest) t"
    using assms(1,4) by (rule scan_recased) (simp, rule map_eq_imp_length_eq)
  show ?thesis
    by (simp add: parse_str s1 s2 s3)
qed

theorem header_case_outside_captures_witness:
  "(map sre_fold reply_three_upper = map sre_fold reply_three \<and>
    captured header_analisis (lazy_until header_justificacion) reply_three = Some (26, 17) \<and>
    captured header_justificacion (lazy_until header_acciones) reply_three = Some (64, 14) \<and>
    captured header_acciones (\<lambda>rest. rest) reply_three = Some (104, 15) \<and>
    parse_gemini_response (PyStr reply_three_upper) = parse_gemini_response (PyStr reply_three)) \<and>
   (map sre_fold reply_single_lower = map sre_fold reply_single \<and>
    captured header_analisis (lazy_until header_justificacion) reply_single = Some (22, 11) \<and>
    captured header_justificacion (lazy_until header_acciones) reply_single = None \<and>
    captured header_acciones (\<lambda>rest. rest) reply_single = None \<and>
    parse_gemini_response (PyStr reply_single_lower) = parse_gemini_response (PyStr reply_single))"
proof -
  have f: "map sre_fold reply_three_upper = map sre_fold reply_three"
    by (simp add: reply_defs parse_defs)
  have c1: "captured header_analisis (lazy_until header_justificacion) reply_three = Some (26, 17)"
    and c2: "captured header_justificacion (lazy_until header_acciones) reply_three = Some (64, 14)"
    and c3: "captured header_acciones (\<lambda>rest. rest) reply_three = Some (104, 15)"
    by (simp_all add: span_defs reply_defs parse_defs)
  have s1: "same_there reply_three reply_three_upper (Some (26, 17))"
    and s2: "same_there reply_three reply_three_upper (Some (64, 14))"
    and s3: "same_there reply_three reply_three_upper (Some (104, 15))"
    by (simp_all add: span_defs reply_defs parse_defs)
  have g: "map sre_fold reply_single_lower = map sre_fold reply_single"
    by (simp add: reply_defs parse_defs)
  have d1: "captured header_analisis (lazy_until header_justificacion) reply_single = Some (22, 11)"
    and d2: "captured header_justificacion (lazy_until header_acciones) reply_single = None"
    and d3: "captured header_acciones (\<lambda>rest. rest) reply_single = None"
    by (simp_all add: span_defs reply_defs parse_defs)
  have u1: "same_there reply_single reply_single_lower (Some (22, 11))"
    and u2: "same_there reply_single reply_single_lower None"
    by (simp_all add: span_defs reply_defs parse_defs)
  have r1: "parse_gemini_response (PyStr reply_three_upper) =
      parse_gemini_response (PyStr reply_three)"
    using header_case_outside_captures [of reply_three_upper reply_three] f s1 s2 s3
    by (simp add: c1 c2 c3)
  have r2: "parse_gemini_response (PyStr reply_single_lower) =
      parse_gemini_response (PyStr reply_single)"
    using header_case_outside_captures [of reply_single_lower reply_single] g u1 u2
    by (simp add: d1 d2 d3)
  show ?thesis
    using f c1 c2 c3 g d1 d2 d3 r1 r2 by simp
qed

section \<open>Facts about the prompt\<close>

lemma cons_append_ok: "cons_ok c (append_ok l r) = append_ok (c # l) r"
  by (cases r) (simp_all add: cons_ok_def append_ok_def)

lemma append_ok_Nil: "append_ok [] r = r"
  by (cases r) (simp_all add: append_ok_def)

lemma append_ok_assoc: "append_ok a (append_ok b r) = append_ok (a @ b) r"
  by (cases r) (simp_all add: append_ok_def)

lemma format_lit:
  "no_brace lit \<Longrightarrow> format_from kw None (lit @ rest) = append_ok lit (format_from kw None rest)"
proof (induction lit)
  case Nil
  show ?case by (simp add: append_ok_Nil)
next
  case (Cons c cs)
  then have "c \<noteq> 123" "c \<noteq> 125" "no_brace cs"
    by (auto simp: no_brace_def)
  with Cons.IH show ?case
    by (simp add: cons_append_ok)
qed

lemma format_name:
  "no_brace name \<Longrightarrow>
   format_from kw (Some acc) (name @ 125 # rest) =
     (case kw (acc @ name) of
        None \<Rightarrow> Inl (PyException ([39] @ (acc @ name) @ [39]))
      | Some v \<Rightarrow> append_ok v (format_from kw None rest))"
proof (induction name arbitrary: acc)
  case Nil
  show ?case by (cases "kw acc") simp_all
next
  case (Cons c cs)
  then have c: "c \<noteq> 125" and cs: "no_brace cs"
    by (auto simp: no_brace_def)
  show ?case
    using Cons.IH [OF cs, of "acc @ [c]"] c by (simp split: option.split)
qed

lemma format_field:
  assumes "no_brace name" and "kw name = Some v"
  shows "format_from kw None (field name @ rest) = append_ok v (format_from kw None rest)"
proof (cases name)
  case Nil
  with assms show ?thesis by (simp add: field_def)
next
  case (Cons c cs)
  with assms(1) have "c \<noteq> 123" by (auto simp: no_brace_def)
  with Cons format_name [OF assms(1), of kw "[]" rest] assms(2) show ?thesis
    by (simp add: field_def)
qed

lemma format_lit_field:
  assumes "no_brace lit" and "no_brace name" and "kw name = Some v"
  shows "format_from kw None (lit @ field name @ rest) =
           append_ok (lit @ v) (format_from kw None rest)"
  using format_field [of name kw v rest] assms
  by (simp add: format_lit append_ok_assoc)

lemma no_brace_lits:
  "no_brace prompt_base_0" "no_brace prompt_base_1" "no_brace prompt_base_2"
  "no_brace prompt_base_3" "no_brace prompt_base_4" "no_brace prompt_base_5"
  "no_brace prompt_base_6" "no_brace prompt_base_7" "no_brace prompt_base_8"
  "no_brace prompt_base_9" "no_brace prompt_base_10" "no_brace prompt_base_11"
  "no_brace prompt_base_12" "no_brace prompt_base_13" "no_brace prompt_base_14"
  by (simp_all add: no_brace_def cps_def prompt_base_0_def prompt_base_1_def prompt_base_2_def
      prompt_base_3_def prompt_base_4_def prompt_base_5_def prompt_base_6_def prompt_base_7_def
      prompt_base_8_def prompt_base_9_def prompt_base_10_def prompt_base_11_def
      prompt_base_12_def prompt_base_13_def prompt_base_14_def)


lemma format_lit_field_case:
  assumes "no_brace lit" and "no_brace name"
  shows "format_from kw None (lit @ field name @ rest) =
           (case kw name of
              None \<Rightarrow> Inl (PyException ([39] @ name @ [39]))
            | Some v \<Rightarrow> append_ok (lit @ v) (format_from kw None rest))"
proof (cases "kw name")
  case None
  have "format_from kw None (field name @ rest) = Inl (PyException ([39] @ name @ [39]))"
  proof (cases name)
    case Nil
    with None show ?thesis by (simp add: field_def)
  next
    case (Cons c cs)
    with assms(2) have "c \<noteq> 123" by (auto simp: no_brace_def)
    with Cons format_name [OF assms(2), of kw "[]" rest] None show ?thesis
      by (simp add: field_def)
  qed
  with None show ?thesis
    by (simp add: format_lit [OF assms(1)] append_ok_def)
next
  case (Some v)
  with format_lit_field [of lit name kw v rest] assms show ?thesis by simp
qed

lemma no_brace_names:
  "no_brace (cps ''FRECUENCIA_CARDIACA'')" "no_brace (cps ''PRESION_ARTERIAL'')"
  "no_brace (cps ''FRECUENCIA_RESPIRATORIA'')" "no_brace (cps ''TEMPERATURA_CORPORAL'')"
  "no_brace (cps ''SATURACION_OXIGENO'')" "no_brace (cps ''PROCALCITONINA'')"
  "no_brace (cps ''LACTATO'')" "no_brace (cps ''PCR'')" "no_brace (cps ''LEUCOCITOS'')"
  "no_brace (cps ''ARRAY_JSON_COMORBILIDADES'')" "no_brace (cps ''TEXTO_PATOLOGIAS_PRESENTES'')"
  "no_brace (cps ''TEXTO_SINTOMAS_DIARIOS'')" "no_brace (cps ''OBJETO_JSON_VALORES_PREVIOS'')"
  "no_brace (cps ''PORCENTAJE_IA'')"
  by (simp_all add: no_brace_def cps_def)

lemma format_last: "no_brace lit \<Longrightarrow> format_from kw None lit = Inr lit"
  using format_lit [of lit kw "[]"] by (simp add: append_ok_def)

lemma kwargs_lookup:
  "map_of (format_kwargs d) (cps ''FRECUENCIA_CARDIACA'') = Some (str_int (frecuencia_cardiaca d))"
  "map_of (format_kwargs d) (cps ''PRESION_ARTERIAL'') = Some (presion_arterial d)"
  "map_of (format_kwargs d) (cps ''FRECUENCIA_RESPIRATORIA'') =
     Some (str_int (frecuencia_respiratoria d))"
  "map_of (format_kwargs d) (cps ''TEMPERATURA_CORPORAL'') =
     Some (float_repr (temperatura_corporal d))"
  "map_of (format_kwargs d) (cps ''SATURACION_OXIGENO'') = Some (str_int (saturacion_oxigeno d))"
  "map_of (format_kwargs d) (cps ''PROCALCITONINA'') = Some (float_repr (procalcitonina d))"
  "map_of (format_kwargs d) (cps ''LACTATO'') = Some (float_repr (lactato d))"
  "map_of (format_kwargs d) (cps ''PCR'') = Some (float_repr (pcr d))"
  "map_of (format_kwargs d) (cps ''LEUCOCITOS'') = Some (float_repr (leucocitos d))"
  "map_of (format_kwargs d) (cps ''ARRAY_JSON_COMORBILIDADES'') =
     Some (comorbilidades_formateada d)"
  "map_of (format_kwargs d) (cps ''TEXTO_PATOLOGIAS_PRESENTES'') =
     Some (texto_patologias_presentes d)"
  "map_of (format_kwargs d) (cps ''TEXTO_SINTOMAS_DIARIOS'') = Some (texto_sintomas_diarios d)"
  "map_of (format_kwargs d) (cps ''OBJETO_JSON_VALORES_PREVIOS'') =
     Some (valores_previos_formateados d)"
  "map_of (format_kwargs d) (cps ''PORCENTAJE_IA'') = Some (str_int (porcentaje_ia d))"
  by (simp_all add: format_kwargs_def cps_def)

lemma prompt_final_eq:
  "prompt_final d =
     Inr (prompt_base_0 @ str_int (frecuencia_cardiaca d) @
          prompt_base_1 @ presion_arterial d @
          prompt_base_2 @ str_int (frecuencia_respiratoria d) @
          prompt_base_3 @ float_repr (temperatura_corporal d) @
          prompt_base_4 @ str_int (saturacion_oxigeno d) @
          prompt_base_5 @ float_repr (procalcitonina d) @
          prompt_base_6 @ float_repr (lactato d) @
          prompt_base_7 @ float_repr (pcr d) @
          prompt_base_8 @ float_repr (leucocitos d) @
          prompt_base_9 @ comorbilidades_formateada d @
          prompt_base_10 @ texto_patologias_presentes d @
          prompt_base_11 @ texto_sintomas_diarios d @
          prompt_base_12 @ valores_previos_formateados d @
          prompt_base_13 @ str_int (porcentaje_ia d) @
          prompt_base_14)"
  unfolding prompt_final_def py_format_def prompt_base_def
  by (simp only: format_lit_field_case [OF no_brace_lits(1) no_brace_names(1)]
      format_lit_field_case [OF no_brace_lits(2) no_brace_names(2)]
      format_lit_field_case [OF no_brace_lits(3) no_brace_names(3)]
      format_lit_field_case [OF no_brace_lits(4) no_brace_names(4)]
      format_lit_field_case [OF no_brace_lits(5) no_brace_names(5)]
      format_lit_field_case [OF no_brace_lits(6) no_brace_names(6)]
      format_lit_field_case [OF no_brace_lits(7) no_brace_names(7)]
      format_lit_field_case [OF no_brace_lits(8) no_brace_names(8)]
      format_lit_field_case [OF no_brace_lits(9) no_brace_names(9)]
      format_lit_field_case [OF no_brace_lits(10) no_brace_names(10)]
      format_lit_field_case [OF no_brace_lits(11) no_brace_names(11)]
      format_lit_field_case [OF no_brace_lits(12) no_brace_names(12)]
      format_lit_field_case [OF no_brace_lits(13) no_brace_names(13)]
      format_lit_field_case [OF no_brace_lits(14) no_brace_names(14)]
      format_last [OF no_brace_lits(15)] kwargs_lookup option.case append_ok_def sum.case
      append_assoc)

section \<open>The claims about the endpoint and the start\<close>

lemma analyze_try_call:
  assumes "prompt_final d = Inr p"
  shows "fst (analyze_try model d) =
           [\<lparr>contents = p, call_generation_config = generation_config,
              call_safety_settings = safety_settings_config\<rparr>]"
  using assms by (simp add: analyze_try_def Let_def split: sum.split)

lemma analyze_endpoint_calls: "fst (analyze_patient_endpoint model d) = fst (analyze_try model d)"
  by (cases "analyze_try model d")
    (auto simp: analyze_patient_endpoint_def split: sum.split pyexn.split)

text \<open>
  Claim C7. When the call to the external model raises an exception, the endpoint
  catches it and raises \<open>HTTPException\<close> with status 500, whose detail is
  \<open>Error al procesar la solicitud: \<close> followed by the message of the exception, so the
  detail contains that message.
\<close>

theorem model_failure_gives_500:
  assumes "prompt_final d = Inr p"
    and "model \<lparr>contents = p, call_generation_config = generation_config,
                 call_safety_settings = safety_settings_config\<rparr> = Inl (PyException msg)"
  shows "\<exists>detail. snd (analyze_patient_endpoint model d) = Inl (HTTPException 500 detail) \<and>
           detail = cps ''Error al procesar la solicitud: '' @ msg \<and> sublist msg detail"
  using assms
  by (simp add: analyze_patient_endpoint_def analyze_try_def Let_def sublist_append)

theorem model_failure_gives_500_witness:
  "\<exists>p detail. prompt_final example_patient = Inr p \<and>
     failing_model \<lparr>contents = p, call_generation_config = generation_config,
                    call_safety_settings = safety_settings_config\<rparr> =
       Inl (PyException (cps ''503 Service Unavailable'')) \<and>
     snd (analyze_patient_endpoint failing_model example_patient) =
       Inl (HTTPException 500 detail) \<and>
     detail = cps ''Error al procesar la solicitud: '' @ cps ''503 Service Unavailable''"
proof -
  obtain p where p: "prompt_final example_patient = Inr p"
    using prompt_final_eq by blast
  have f: "failing_model \<lparr>contents = p, call_generation_config = generation_config,
                    call_safety_settings = safety_settings_config\<rparr> =
       Inl (PyException (cps ''503 Service Unavailable''))"
    by (simp add: failing_model_def)
  from model_failure_gives_500 [where model = failing_model and d = example_patient
      and p = p and msg = "cps ''503 Service Unavailable''"] p f
  show ?thesis
    by blast
qed

text \<open>
  Claim C8. Every call that the endpoint makes to the external model carries the same
  generation configuration, temperature 0.2 and at most 4096 output tokens, and the same
  safety settings: the four harm categories, each with the threshold \<open>BLOCK_NONE\<close>.
\<close>

theorem model_calls_fixed_configuration:
  "\<forall>call \<in> set (fst (analyze_patient_endpoint model d)).
     call_generation_config call =
       \<lparr>temperature = PyFloat (cps ''0.2''), max_output_tokens = 4096\<rparr> \<and>
     map category (call_safety_settings call) =
       [cps ''HARM_CATEGORY_HARASSMENT'', cps ''HARM_CATEGORY_HATE_SPEECH'',
        cps ''HARM_CATEGORY_SEXUALLY_EXPLICIT'', cps ''HARM_CATEGORY_DANGEROUS_CONTENT''] \<and>
     (\<forall>s \<in> set (call_safety_settings call). threshold s = cps ''BLOCK_NONE'')"
proof (cases "prompt_final d")
  case (Inl e)
  then have "fst (analyze_patient_endpoint model d) = []"
    by (simp add: analyze_endpoint_calls analyze_try_def)
  then show ?thesis by simp
next
  case (Inr p)
  show ?thesis
    by (simp add: analyze_endpoint_calls analyze_try_call [OF Inr] generation_config_def
        safety_settings_config_def)
qed

theorem model_calls_fixed_configuration_witness:
  "\<exists>call. fst (analyze_patient_endpoint stub_model example_patient) = [call] \<and>
     call_generation_config call =
       \<lparr>temperature = PyFloat (cps ''0.2''), max_output_tokens = 4096\<rparr> \<and>
     map category (call_safety_settings call) =
       [cps ''HARM_CATEGORY_HARASSMENT'', cps ''HARM_CATEGORY_HATE_SPEECH'',
        cps ''HARM_CATEGORY_SEXUALLY_EXPLICIT'', cps ''HARM_CATEGORY_DANGEROUS_CONTENT''] \<and>
     (\<forall>s \<in> set (call_safety_settings call). threshold s = cps ''BLOCK_NONE'')"
proof -
  obtain p where p: "prompt_final example_patient = Inr p"
    using prompt_final_eq by blast
  have c: "fst (analyze_patient_endpoint stub_model example_patient) =
      [\<lparr>contents = p, call_generation_config = generation_config,
        call_safety_settings = safety_settings_config\<rparr>]"
    by (simp add: analyze_endpoint_calls analyze_try_call [OF p])
  show ?thesis
    using model_calls_fixed_configuration [of stub_model example_patient] c by simp
qed



section \<open>Facts about JSON text\<close>

subsection \<open>Strings\<close>

lemma string_rest_Cons:
  "string_rest (c # s) =
     (if c = 34 then Some s
      else if c = 92 then
        (case s of
           [] \<Rightarrow> None
         | e # es \<Rightarrow>
             if e = 34 \<or> e = 92 \<or> e = 47 \<or> e = 98 \<or> e = 102 \<or> e = 110 \<or> e = 114 \<or> e = 116
             then string_rest es
             else if e = 117 \<and> 4 \<le> length es \<and> list_all is_hex (take 4 es)
             then string_rest (drop 4 es)
             else None)
      else if c < 32 then None
      else string_rest s)"
  by (cases s) simp_all

lemma is_hex_hex_digit: "d < 16 \<Longrightarrow> is_hex (hex_digit d)"
  by (auto simp: is_hex_def is_digit_def hex_digit_def)

lemma string_rest_escape: "string_rest (escape_char c @ s) = string_rest s"
proof -
  have h: "is_hex (hex_digit (c div 16))" "is_hex (hex_digit (c mod 16))" if "c < 32"
    using that by (auto intro!: is_hex_hex_digit)
  have z: "is_hex 48"
    by (simp add: is_hex_def is_digit_def)
  show ?thesis
    using h z by (simp add: escape_char_def string_rest_Cons)
qed

lemma string_rest_encoded: "string_rest (concat (map escape_char s) @ 34 # rest) = Some rest"
  by (induction s) (simp_all add: string_rest_Cons string_rest_escape)

lemma next_token_string:
  "next_token (encode_basestring s @ rest) = Some (TString, rest)"
  using string_rest_encoded [of s rest] by (simp add: encode_basestring_def next_token_def)

subsection \<open>Numbers\<close>

lemma dropWhile_digit_append:
  "ends_number rest \<Longrightarrow> dropWhile is_digit (xs @ rest) = dropWhile is_digit xs @ rest"
  by (induction xs) (auto simp: ends_number_def split: list.splits)

lemma digits_rest_append:
  "digits_rest t = Some r \<Longrightarrow> ends_number rest \<Longrightarrow> digits_rest (t @ rest) = Some (r @ rest)"
  by (cases t) (auto simp: digits_rest_def dropWhile_digit_append split: if_splits)

lemma int_rest_append:
  "int_rest t = Some r \<Longrightarrow> ends_number rest \<Longrightarrow> int_rest (t @ rest) = Some (r @ rest)"
  by (cases t) (auto simp: int_rest_def dropWhile_digit_append split: if_splits)

lemma frac_rest_append:
  "frac_rest t = Some r \<Longrightarrow> ends_number rest \<Longrightarrow> frac_rest (t @ rest) = Some (r @ rest)"
  by (cases t)
    (auto simp: frac_rest_def ends_number_def digits_rest_append split: if_splits list.splits)

lemma exp_rest_append:
  "exp_rest t = Some r \<Longrightarrow> ends_number rest \<Longrightarrow> exp_rest (t @ rest) = Some (r @ rest)"
proof (cases t)
  case Nil
  assume "exp_rest t = Some r" "ends_number rest"
  with Nil show ?thesis
    by (auto simp: exp_rest_def ends_number_def split: list.splits)
next
  case (Cons c cs)
  assume a: "exp_rest t = Some r" "ends_number rest"
  show ?thesis
  proof (cases "c = 101 \<or> c = 69")
    case False
    with Cons a show ?thesis by (auto simp: exp_rest_def)
  next
    case True
    with Cons a obtain g ds where cs: "cs = g # ds"
      by (cases cs) (auto simp: exp_rest_def)
    show ?thesis
    proof (cases "g = 43 \<or> g = 45")
      case True
      with \<open>c = 101 \<or> c = 69\<close> Cons cs a have "digits_rest ds = Some r"
        by (simp add: exp_rest_def)
      from digits_rest_append [OF this a(2)] True \<open>c = 101 \<or> c = 69\<close> Cons cs show ?thesis
        by (simp add: exp_rest_def)
    next
      case False
      with \<open>c = 101 \<or> c = 69\<close> Cons cs a have "digits_rest (g # ds) = Some r"
        by (simp add: exp_rest_def)
      from digits_rest_append [OF this a(2)] False \<open>c = 101 \<or> c = 69\<close> Cons cs show ?thesis
        by (simp add: exp_rest_def)
    qed
  qed
qed

lemma number_rest_append:
  assumes "number_rest t = Some r" and "ends_number rest"
  shows "number_rest (t @ rest) = Some (r @ rest)"
proof -
  define u where "u = (case t of [] \<Rightarrow> [] | c # cs \<Rightarrow> if c = 45 then cs else t)"
  from assms(1) obtain a b where a: "int_rest u = Some a" and b: "frac_rest a = Some b"
    and r: "exp_rest b = Some r"
    by (auto simp: number_rest_def u_def Option.bind_eq_Some_conv)
  have "t \<noteq> []"
    using a by (auto simp: u_def int_rest_def)
  then have u': "(case t @ rest of [] \<Rightarrow> [] | c # cs \<Rightarrow> if c = 45 then cs else t @ rest) = u @ rest"
    by (cases t) (auto simp: u_def)
  show ?thesis
    using int_rest_append [OF a assms(2)] frac_rest_append [OF b assms(2)]
      exp_rest_append [OF r assms(2)]
    by (simp add: number_rest_def u')
qed

lemma number_starts:
  assumes "number_rest t = Some r"
  shows "\<exists>c cs. t = c # cs \<and> (c = 45 \<or> is_digit c)"
  using assms
  by (cases t)
    (auto simp: number_rest_def int_rest_def is_digit_def Option.bind_eq_Some_conv
      split: if_splits list.splits)

lemma next_token_number:
  assumes "json_number t" and "ends_number rest"
  shows "next_token (t @ rest) = Some (TNumber, rest)"
proof -
  from assms(1) have n: "number_rest t = Some []"
    by (simp add: json_number_def)
  from number_starts [OF n] obtain c cs where t: "t = c # cs" and c: "c = 45 \<or> is_digit c"
    by blast
  have "number_rest (t @ rest) = Some rest"
    using number_rest_append [OF n assms(2)] by simp
  with t c show ?thesis
    by (auto simp: next_token_def is_digit_def cps_def)
qed

lemma digits_props:
  "digits n \<noteq> [] \<and> list_all is_digit (digits n) \<and> (0 < n \<longrightarrow> 49 \<le> hd (digits n))"
proof (induction n rule: digits.induct)
  case (1 n)
  show ?case
  proof (cases "n < 10")
    case True
    then show ?thesis
      by (simp add: digits.simps [of n] is_digit_def)
  next
    case False
    then have "0 < n div 10" by simp
    with 1 False show ?thesis
      by (simp add: digits.simps [of n] is_digit_def)
  qed
qed

lemma int_rest_digits: "int_rest (digits n) = Some []"
proof -
  obtain d ds where d: "digits n = d # ds"
    using digits_props [of n] by (cases "digits n") auto
  have all: "is_digit d" "list_all is_digit ds"
    using digits_props [of n] d by auto
  then have dw: "dropWhile is_digit ds = []"
    by (simp add: list_all_iff)
  show ?thesis
  proof (cases "n = 0")
    case True
    then show ?thesis by (simp add: digits.simps [of 0] int_rest_def)
  next
    case False
    then have "49 \<le> d" using digits_props [of n] d by simp
    with all dw d show ?thesis
      by (simp add: int_rest_def is_digit_def)
  qed
qed

lemma json_number_str_int: "json_number (str_int i)"
proof -
  have h: "digits n \<noteq> [] \<and> hd (digits n) \<noteq> 45" for n
    using digits_props [of n] by (cases "digits n") (auto simp: is_digit_def)
  have u: "(case digits n of [] \<Rightarrow> [] | c # cs \<Rightarrow> if c = 45 then cs else digits n) = digits n" for n
    using h [of n] by (cases "digits n") auto
  show ?thesis
    by (simp add: json_number_def str_int_def number_rest_def u int_rest_digits frac_rest_def
        exp_rest_def)
qed

subsection \<open>Tokens\<close>

lemma lex_Nil: "lex [] = Some []"
  by (simp add: lex.simps)

lemma lex_ws: "json_ws c \<Longrightarrow> lex (c # cs) = lex cs"
  by (simp add: lex.simps [of "c # cs"] lex.simps [of cs])

lemma lex_token:
  assumes "\<not> json_ws c" and "next_token (c # cs) = Some (t, r)" and "length r \<le> length cs"
  shows "lex (c # cs) = before [t] (lex r)"
  using assms by (cases "lex r") (simp_all add: lex.simps [of "c # cs"] before_def)

lemma lex_fail:
  assumes "\<not> json_ws c" and "next_token (c # cs) = None"
  shows "lex (c # cs) = None"
  using assms by (simp add: lex.simps [of "c # cs"])

lemma lex_ws_append: "list_all json_ws w \<Longrightarrow> lex (w @ rest) = lex rest"
  by (induction w) (simp_all add: lex_ws)

lemma ws_newline_indent: "list_all json_ws (newline_indent lvl)"
  by (induction lvl) (simp_all add: newline_indent_def json_ws_def)

lemma lex_newline_indent: "lex (newline_indent lvl @ rest) = lex rest"
  by (rule lex_ws_append) (rule ws_newline_indent)

lemma ends_number_newline_indent: "ends_number (newline_indent lvl @ rest)"
  by (simp add: newline_indent_def ends_number_def is_digit_def)

lemma ends_number_comma: "ends_number (44 # rest)"
  by (simp add: ends_number_def is_digit_def)

lemma lex_punct:
  "lex (91 # rest) = before [LBracket] (lex rest)"
  "lex (93 # rest) = before [RBracket] (lex rest)"
  "lex (123 # rest) = before [LBrace] (lex rest)"
  "lex (125 # rest) = before [RBrace] (lex rest)"
  "lex (44 # rest) = before [Comma] (lex rest)"
  "lex (58 # rest) = before [Colon] (lex rest)"
  by (simp_all add: lex_token next_token_def json_ws_def)

lemma lex_string:
  "lex (encode_basestring s @ rest) = before [TString] (lex rest)"
proof -
  have e: "encode_basestring s @ rest = 34 # concat (map escape_char s) @ 34 # rest"
    by (simp add: encode_basestring_def)
  have "next_token (34 # concat (map escape_char s) @ 34 # rest) = Some (TString, rest)"
    using next_token_string [of s rest] by (simp add: e)
  then show ?thesis
    unfolding e by (rule lex_token [rotated]) (simp_all add: json_ws_def)
qed

lemma lex_number:
  assumes "json_number t" and "ends_number rest"
  shows "lex (t @ rest) = before [TNumber] (lex rest)"
proof -
  from assms(1) have n: "number_rest t = Some []"
    by (simp add: json_number_def)
  from number_starts [OF n] obtain c cs where t: "t = c # cs" and c: "c = 45 \<or> is_digit c"
    by blast
  have nt: "next_token (c # cs @ rest) = Some (TNumber, rest)"
    using next_token_number [OF assms] t by simp
  have "\<not> json_ws c"
    using c by (auto simp: json_ws_def is_digit_def)
  from lex_token [OF this nt] t show ?thesis by simp
qed

lemma lex_literals:
  "lex (cps ''null'' @ rest) = before [TNull] (lex rest)"
  "lex (cps ''true'' @ rest) = before [TTrue] (lex rest)"
  "lex (cps ''false'' @ rest) = before [TFalse] (lex rest)"
  by (simp_all add: cps_def lex_token next_token_def json_ws_def)

lemma before_before: "before a (before b x) = before (a @ b) x"
  by (cases x) (simp_all add: before_def)

lemma before_Some: "before a (Some b) = Some (a @ b)"
  by (simp add: before_def)

text \<open>Items joined by a comma and a new line: their tokens joined by commas.\<close>

lemma lex_join:
  assumes "items \<noteq> []"
    and "\<And>e ts rest'. (e, ts) \<in> set items \<Longrightarrow> ends_number rest' \<Longrightarrow>
           lex (e @ rest') = before ts (lex rest')"
    and "ends_number tail"
  shows "lex (py_join (44 # newline_indent lvl) (map fst items) @ tail) =
           before (tjoin (map snd items)) (lex tail)"
  using assms
proof (induction items rule: list_nonempty_induct)
  case (single x)
  obtain e ts where x: "x = (e, ts)" by (cases x)
  with single show ?case by simp
next
  case (cons x xs)
  obtain e ts where x: "x = (e, ts)" by (cases x)
  from cons.hyps obtain y ys where xs: "xs = y # ys" by (cases xs) auto
  have ih: "lex (py_join (44 # newline_indent lvl) (map fst xs) @ tail) =
      before (tjoin (map snd xs)) (lex tail)"
    using cons.IH cons.prems by simp
  have "lex (e @ 44 # newline_indent lvl @ py_join (44 # newline_indent lvl) (map fst xs) @ tail) =
      before ts
        (lex (44 # newline_indent lvl @ py_join (44 # newline_indent lvl) (map fst xs) @ tail))"
    using cons.prems(1) [of e ts] x by (simp add: ends_number_comma)
  then show ?case
    using ih x xs by (simp add: lex_punct lex_newline_indent before_before)
qed

lemma lex_iterencode:
  "finite_floats v \<Longrightarrow> ends_number rest \<Longrightarrow>
   lex (iterencode lvl v @ rest) = before (toks v) (lex rest)"
proof (induction v arbitrary: lvl rest)
  case JNull
  show ?case by (simp add: lex_literals)
next
  case (JBool b)
  show ?case by (simp add: lex_literals)
next
  case (JInt i)
  then show ?case
    by (simp add: lex_number json_number_str_int)
next
  case (JFloat f)
  then have n: "json_number (float_repr f)" by simp
  have "floatstr f = float_repr f"
    using n by (auto simp: floatstr_def json_number_def number_rest_def int_rest_def cps_def)
  with n JFloat show ?case
    by (simp add: lex_number)
next
  case (JStr s)
  show ?case by (simp add: lex_string)
next
  case (JArr vs)
  show ?case
  proof (cases "vs = []")
    case True
    then show ?thesis
      by (simp add: cps_def lex_punct before_before)
  next
    case False
    define items where "items = map (\<lambda>v. (iterencode (Suc lvl) v, toks v)) vs"
    have i1: "map fst items = map (iterencode (Suc lvl)) vs" and i2: "map snd items = map toks vs"
      by (simp_all add: items_def comp_def)
    have ne: "items \<noteq> []" using False by (simp add: items_def)
    have each: "lex (e @ rest') = before ts (lex rest')"
      if "(e, ts) \<in> set items" "ends_number rest'" for e ts rest'
    proof -
      from that(1) obtain v where v: "v \<in> set vs" "e = iterencode (Suc lvl) v" "ts = toks v"
        by (auto simp: items_def)
      have "finite_floats v"
        using JArr.prems(1) v(1) by (simp add: list_all_iff)
      from JArr.IH [OF v(1) this that(2)] v show ?thesis by simp
    qed
    have "lex (py_join (44 # newline_indent (Suc lvl)) (map fst items) @
              newline_indent lvl @ 93 # rest) =
          before (tjoin (map snd items)) (lex (newline_indent lvl @ 93 # rest))"
      by (rule lex_join [OF ne _ ends_number_newline_indent]) (auto intro: each)
    with False show ?thesis
      by (simp add: i1 i2 lex_punct lex_newline_indent before_before)
  qed
next
  case (JObj kvs)
  show ?case
  proof (cases "kvs = []")
    case True
    then show ?thesis
      by (simp add: cps_def lex_punct before_before)
  next
    case False
    define items where
      "items = map (\<lambda>(k, v). (encode_basestring k @ [58, 32] @ iterencode (Suc lvl) v,
                               TString # Colon # toks v)) kvs"
    have i1: "map fst items =
        map (\<lambda>(k, v). encode_basestring k @ [58, 32] @ iterencode (Suc lvl) v) kvs"
      and i2: "map snd items = map (\<lambda>(k, v). TString # Colon # toks v) kvs"
      by (simp_all add: items_def comp_def case_prod_beta)
    have ne: "items \<noteq> []" using False by (simp add: items_def)
    have each: "lex (e @ rest') = before ts (lex rest')"
      if "(e, ts) \<in> set items" "ends_number rest'" for e ts rest'
    proof -
      from that(1) obtain k v where kv: "(k, v) \<in> set kvs"
        "e = encode_basestring k @ [58, 32] @ iterencode (Suc lvl) v"
        "ts = TString # Colon # toks v"
        by (auto simp: items_def)
      have ff: "finite_floats v"
        using JObj.prems(1) kv(1) by (auto simp: list_all_iff)
      have "v \<in> Basic_BNFs.snds (k, v)" by simp
      from JObj.IH [OF kv(1) this ff that(2)] kv
      show ?thesis
        by (simp add: lex_string lex_punct lex_ws json_ws_def before_before)
    qed
    have "lex (py_join (44 # newline_indent (Suc lvl)) (map fst items) @
              newline_indent lvl @ 125 # rest) =
          before (tjoin (map snd items)) (lex (newline_indent lvl @ 125 # rest))"
      by (rule lex_join [OF ne _ ends_number_newline_indent]) (auto intro: each)
    with False show ?thesis
      by (simp add: i1 i2 lex_punct lex_newline_indent before_before)
  qed
qed

subsection \<open>The grammar on the tokens of the encoder\<close>

lemma toks_start:
  "\<exists>t r. toks v = t # r \<and> (is_scalar t \<or> t = LBracket \<or> t = LBrace)"
  by (cases v) auto

lemma tjoin_start:
  assumes "xs \<noteq> []" and "\<And>x. x \<in> set xs \<Longrightarrow> \<exists>r. x = t # r"
  shows "\<exists>r. tjoin xs = t # r"
proof (cases xs)
  case Nil
  with assms(1) show ?thesis by simp
next
  case (Cons x ys)
  with assms(2) [of x] obtain r where "x = t # r" by auto
  with Cons show ?thesis by (cases ys) auto
qed

lemma run_value_or_end:
  assumes "is_scalar t \<or> t = LBracket \<or> t = LBrace"
  shows "run ValueOrEnd st (t # ts) = run Value st (t # ts)"
  using assms by auto

lemma run_join_array:
  assumes "vs \<noteq> []"
    and "\<And>v st ts. v \<in> set vs \<Longrightarrow> run Value st (toks v @ ts) = run AfterValue st ts"
  shows "run Value (InArray # st) (tjoin (map toks vs) @ RBracket # ts) = run AfterValue st ts"
  using assms
proof (induction vs rule: list_nonempty_induct)
  case (single v)
  then show ?case by simp
next
  case (cons v vs)
  from cons.hyps obtain w ws where vs: "vs = w # ws" by (cases vs) auto
  have ih: "run Value (InArray # st) (tjoin (map toks vs) @ RBracket # ts) = run AfterValue st ts"
    using cons.IH cons.prems by simp
  have "run Value (InArray # st) (toks v @ Comma # tjoin (map toks vs) @ RBracket # ts) =
      run AfterValue (InArray # st) (Comma # tjoin (map toks vs) @ RBracket # ts)"
    using cons.prems [of v] by simp
  with ih vs show ?case by simp
qed

lemma run_join_object:
  assumes "kvs \<noteq> []"
    and "\<And>k v st ts. (k, v) \<in> set kvs \<Longrightarrow> run Value st (toks v @ ts) = run AfterValue st ts"
  shows "run Key (InObject # st)
           (tjoin (map (\<lambda>(k, v). TString # Colon # toks v) kvs) @ RBrace # ts) =
         run AfterValue st ts"
  using assms
proof (induction kvs rule: list_nonempty_induct)
  case (single kv)
  obtain k v where kv: "kv = (k, v)" by (cases kv)
  with single [of k v] show ?case by simp
next
  case (cons kv kvs)
  obtain k v where kv: "kv = (k, v)" by (cases kv)
  from cons.hyps obtain w ws where kvs: "kvs = w # ws" by (cases kvs) auto
  have ih: "run Key (InObject # st)
      (tjoin (map (\<lambda>(k, v). TString # Colon # toks v) kvs) @ RBrace # ts) = run AfterValue st ts"
  proof (rule cons.IH)
    fix k' v' st' ts'
    assume "(k', v') \<in> set kvs"
    then show "run Value st' (toks v' @ ts') = run AfterValue st' ts'"
      using cons.prems [of k' v'] by simp
  qed
  have "run Value (InObject # st)
        (toks v @ Comma # tjoin (map (\<lambda>(k, v). TString # Colon # toks v) kvs) @ RBrace # ts) =
      run AfterValue (InObject # st)
        (Comma # tjoin (map (\<lambda>(k, v). TString # Colon # toks v) kvs) @ RBrace # ts)"
    using cons.prems [of k v] kv by simp
  with ih kv kvs show ?case by simp
qed

lemma run_toks: "run Value st (toks v @ ts) = run AfterValue st ts"
proof (induction v arbitrary: st ts)
  case (JArr vs)
  show ?case
  proof (cases "vs = []")
    case True
    then show ?thesis by simp
  next
    case False
    obtain t r where t: "toks (hd vs) = t # r" "is_scalar t \<or> t = LBracket \<or> t = LBrace"
      using toks_start [of "hd vs"] by blast
    obtain r' where r': "tjoin (map toks vs) = t # r'"
      using False t(1) by (cases vs; cases "tl vs") auto
    have "run ValueOrEnd (InArray # st) (tjoin (map toks vs) @ RBracket # ts) =
        run Value (InArray # st) (tjoin (map toks vs) @ RBracket # ts)"
      using run_value_or_end [OF t(2)] r' by simp
    also have "\<dots> = run AfterValue st ts"
      using False JArr.IH by (rule run_join_array)
    finally show ?thesis by simp
  qed
next
  case (JObj kvs)
  show ?case
  proof (cases "kvs = []")
    case True
    then show ?thesis by simp
  next
    case False
    then obtain kv rest where kvs: "kvs = kv # rest" by (cases kvs) auto
    obtain k v where kv: "kv = (k, v)" by (cases kv)
    obtain r where r: "tjoin (map (\<lambda>(k, v). TString # Colon # toks v) kvs) = TString # r"
      using kvs kv by (cases rest) auto
    have each: "run Value st' (toks v' @ ts') = run AfterValue st' ts'"
      if "(k', v') \<in> set kvs" for k' v' st' ts'
    proof -
      have "v' \<in> Basic_BNFs.snds (k', v')" by simp
      from JObj.IH [OF that this] show ?thesis .
    qed
    have "run KeyOrEnd (InObject # st)
          (tjoin (map (\<lambda>(k, v). TString # Colon # toks v) kvs) @ RBrace # ts) =
        run Key (InObject # st)
          (tjoin (map (\<lambda>(k, v). TString # Colon # toks v) kvs) @ RBrace # ts)"
      using r by simp
    also have "\<dots> = run AfterValue st ts"
      by (rule run_join_object [OF False]) (rule each)
    finally show ?thesis by simp
  qed
qed simp_all

lemma ends_number_Nil: "ends_number []"
  by (simp add: ends_number_def)

lemma json_valid_iterencode:
  assumes "finite_floats v"
  shows "json_valid (iterencode lvl v)"
proof -
  have "lex (iterencode lvl v @ []) = before (toks v) (lex [])"
    using assms ends_number_Nil by (rule lex_iterencode)
  then have "lex (iterencode lvl v) = Some (toks v)"
    by (simp add: lex_Nil before_Some)
  moreover have "run Value [] (toks v @ []) = run AfterValue [] []"
    by (rule run_toks)
  ultimately show ?thesis
    by (simp add: json_valid_def)
qed

lemma json_valid_comorbilidades: "json_valid (comorbilidades_formateada d)"
  unfolding comorbilidades_formateada_def json_dumps_def
  by (rule json_valid_iterencode) (simp add: list_all_iff)

lemma json_valid_valores_previos:
  assumes "list_all (\<lambda>kv. finite_floats (snd kv)) (objeto_json_valores_previos d)"
  shows "json_valid (valores_previos_formateados d)"
  unfolding valores_previos_formateados_def json_dumps_def
  using assms by (intro json_valid_iterencode) simp

section \<open>The claim about the prompt\<close>

lemma sublist_concat: "v \<in> set segs \<Longrightarrow> sublist v (concat segs)"
proof -
  assume "v \<in> set segs"
  then obtain xs ys where "segs = xs @ v # ys"
    by (auto dest: split_list)
  then have "concat segs = concat xs @ v @ concat ys" by simp
  then show ?thesis
    unfolding sublist_def by blast
qed

lemma prompt_final_concat:
  "prompt_final d =
     Inr (concat
       [prompt_base_0, str_int (frecuencia_cardiaca d),
        prompt_base_1, presion_arterial d,
        prompt_base_2, str_int (frecuencia_respiratoria d),
        prompt_base_3, float_repr (temperatura_corporal d),
        prompt_base_4, str_int (saturacion_oxigeno d),
        prompt_base_5, float_repr (procalcitonina d),
        prompt_base_6, float_repr (lactato d),
        prompt_base_7, float_repr (pcr d),
        prompt_base_8, float_repr (leucocitos d),
        prompt_base_9, comorbilidades_formateada d,
        prompt_base_10, texto_patologias_presentes d,
        prompt_base_11, texto_sintomas_diarios d,
        prompt_base_12, valores_previos_formateados d,
        prompt_base_13, str_int (porcentaje_ia d),
        prompt_base_14])"
  by (simp add: prompt_final_eq)

text \<open>
  Claim C5 does not hold for every patient. A prior-values map that holds a float that is
  not a number is a well-formed value of the field (it is what the body
  \<open>{"lactato_previo": NaN}\<close> gives), and \<open>json.dumps\<close> writes it as \<open>NaN\<close>, which no JSON
  value is: the text that the prompt embeds for the map is not valid JSON.
\<close>

theorem prompt_json_counterexample:
  "objeto_json_valores_previos patient_nan =
     [(cps ''lactato_previo'', JFloat (PyFloat (cps ''nan'')))] \<and>
   valores_previos_formateados patient_nan =
     [123, 10] @ cps ''  '' @ [34] @ cps ''lactato_previo'' @ [34] @ cps '': NaN'' @ [10, 125] \<and>
   \<not> json_valid (valores_previos_formateados patient_nan)"
  by (simp add: patient_nan_def valores_previos_formateados_def json_valid_def json_dumps_def
      newline_indent_def encode_basestring_def escape_char_def floatstr_def next_token_def
      number_rest_def int_rest_def json_ws_def cps_def lex_Nil lex_ws lex_token lex_fail
      before_def)

text \<open>
  Claim C5, amended. For every \<open>PatientData\<close> value the prompt is rendered, and it
  contains the text of each of the ten scalar fields and of the two free-text fields, the
  serialization of the comorbidity list, which is valid JSON, and the serialization of the
  prior-values map, which is valid JSON when every float in the map is finite.
\<close>

theorem prompt_contains_values:
  "\<exists>p. prompt_final d = Inr p \<and>
     sublist (str_int (frecuencia_cardiaca d)) p \<and>
     sublist (presion_arterial d) p \<and>
     sublist (str_int (frecuencia_respiratoria d)) p \<and>
     sublist (float_repr (temperatura_corporal d)) p \<and>
     sublist (str_int (saturacion_oxigeno d)) p \<and>
     sublist (float_repr (procalcitonina d)) p \<and>
     sublist (float_repr (lactato d)) p \<and>
     sublist (float_repr (pcr d)) p \<and>
     sublist (float_repr (leucocitos d)) p \<and>
     sublist (str_int (porcentaje_ia d)) p \<and>
     sublist (texto_patologias_presentes d) p \<and>
     sublist (texto_sintomas_diarios d) p \<and>
     sublist (comorbilidades_formateada d) p \<and>
     json_valid (comorbilidades_formateada d) \<and>
     sublist (valores_previos_formateados d) p \<and>
     (list_all (\<lambda>kv. finite_floats (snd kv)) (objeto_json_valores_previos d) \<longrightarrow>
        json_valid (valores_previos_formateados d))"
proof (intro exI conjI impI)
  show "prompt_final d = Inr (concat
       [prompt_base_0, str_int (frecuencia_cardiaca d),
        prompt_base_1, presion_arterial d,
        prompt_base_2, str_int (frecuencia_respiratoria d),
        prompt_base_3, float_repr (temperatura_corporal d),
        prompt_base_4, str_int (saturacion_oxigeno d),
        prompt_base_5, float_repr (procalcitonina d),
        prompt_base_6, float_repr (lactato d),
        prompt_base_7, float_repr (pcr d),
        prompt_base_8, float_repr (leucocitos d),
        prompt_base_9, comorbilidades_formateada d,
        prompt_base_10, texto_patologias_presentes d,
        prompt_base_11, texto_sintomas_diarios d,
        prompt_base_12, valores_previos_formateados d,
        prompt_base_13, str_int (porcentaje_ia d),
        prompt_base_14])"
    by (rule prompt_final_concat)
  show "json_valid (comorbilidades_formateada d)"
    by (rule json_valid_comorbilidades)
  show "json_valid (valores_previos_formateados d)"
    if "list_all (\<lambda>kv. finite_floats (snd kv)) (objeto_json_valores_previos d)"
    using that by (rule json_valid_valores_previos)
qed (rule sublist_concat, simp)+

theorem prompt_contains_values_witness:
  "list_all (\<lambda>kv. finite_floats (snd kv)) (objeto_json_valores_previos example_patient) \<and>
   (\<exists>p. prompt_final example_patient = Inr p \<and>
      sublist (cps ''125'') p \<and> sublist (cps ''85/45'') p \<and> sublist (cps ''39.1'') p \<and>
      sublist (cps ''85'') p \<and>
      sublist (comorbilidades_formateada example_patient) p \<and>
      json_valid (comorbilidades_formateada example_patient) \<and>
      sublist (valores_previos_formateados example_patient) p \<and>
      json_valid (valores_previos_formateados example_patient))"
proof -
  have f: "list_all (\<lambda>kv. finite_floats (snd kv)) (objeto_json_valores_previos example_patient)"
    by (simp add: example_patient_def json_number_def number_rest_def int_rest_def frac_rest_def
        exp_rest_def digits_rest_def is_digit_def cps_def)
  have v: "str_int (frecuencia_cardiaca example_patient) = cps ''125''"
    "presion_arterial example_patient = cps ''85/45''"
    "float_repr (temperatura_corporal example_patient) = cps ''39.1''"
    "str_int (porcentaje_ia example_patient) = cps ''85''"
    by (simp_all add: example_patient_def str_int_def digits.simps cps_def)
  show ?thesis
    using f prompt_contains_values [of example_patient] by (auto simp: v)
qed

end
